theory Spec2Isabelle
  imports Complex_Main "HOL-Library.AList"
begin

section \<open>Python values and exceptions\<close>

text \<open>
  Results, messages and shared-memory entries are untyped Python data
  (\<^verbatim>\<open>Dict[str, Any]\<close>).  A dictionary is an association list with string keys,
  looked up with \<^const>\<open>map_of\<close>.  A float is represented by its exact rational
  value; NaN and the infinities are not represented.

  Python hands objects around by reference.  A list or dict that an agent keeps in an
  attribute and changes in place is an object of that agent, held in the agent's
  \<open>objects\<close> under an address; where such an object stands inside a value that the
  agent returns, the value holds the reference \<open>PRef\<close> to it, and what the value
  reads as follows the object.  A list or dict that nobody changes after it was built
  is written out in place.
\<close>

datatype pyval =
    PNone
  | PBool bool
  | PInt int
  | PFloat rat
  | PStr string
  | PList "pyval list"
  | PDict "(string \<times> pyval) list"
  | PRef nat

text \<open>
  What a value reads as, given the objects of the agent it comes from: every reference
  is followed to the object's present contents.  An object that holds itself is not
  followed a second time; the reference then stays where the cycle closes.
\<close>

function resolve :: "(nat \<times> pyval) list \<Rightarrow> pyval \<Rightarrow> pyval" where
  "resolve objs (PRef a) =
     (case map_of objs a of None \<Rightarrow> PRef a | Some v \<Rightarrow> resolve (AList.delete a objs) v)"
| "resolve objs (PList xs) = PList (map (resolve objs) xs)"
| "resolve objs (PDict kvs) = PDict (map (\<lambda>(k, v). (k, resolve objs v)) kvs)"
| "resolve objs PNone = PNone"
| "resolve objs (PBool b) = PBool b"
| "resolve objs (PInt i) = PInt i"
| "resolve objs (PFloat r) = PFloat r"
| "resolve objs (PStr s) = PStr s"
  by pat_completeness auto
termination
proof (relation "measures [\<lambda>(objs, v). length objs, \<lambda>(objs, v). size v]", goal_cases)
  case 1
  show ?case by simp
next
  case (2 objs a v)
  have le: "length (AList.delete a al) \<le> length al" for al :: "(nat \<times> pyval) list"
    by (induction al) auto
  have "map_of al a = Some v \<Longrightarrow> length (AList.delete a al) < length al"
    for al :: "(nat \<times> pyval) list"
  proof (induction al)
    case Nil
    then show ?case by simp
  next
    case (Cons p al)
    then show ?case using le [of al] by (cases p) (auto split: if_splits)
  qed
  with 2 show ?case by simp
next
  case (3 objs xs x)
  then show ?case by (simp add: less_Suc_eq_le size_list_estimation')
next
  case (4 objs kvs x k v)
  have "(k, v) \<in> set al \<Longrightarrow> size v < Suc (size_list (size_prod (\<lambda>_. 0) size) al)"
    for al :: "(string \<times> pyval) list"
    by (induction al) auto
  with 4 show ?case by auto
qed

text \<open>
  Python truthiness, as tested by \<^verbatim>\<open>if result:\<close>, of a value that has been read
  through.  A reference that is left there closes a cycle: its object holds something.
\<close>

fun truthy :: "pyval \<Rightarrow> bool" where
  "truthy PNone = False"
| "truthy (PBool b) = b"
| "truthy (PInt i) = (i \<noteq> 0)"
| "truthy (PFloat r) = (r \<noteq> 0)"
| "truthy (PStr s) = (s \<noteq> [])"
| "truthy (PList xs) = (xs \<noteq> [])"
| "truthy (PDict kvs) = (kvs \<noteq> [])"
| "truthy (PRef a) = True"

datatype exc_class = TypeError | AttributeError | ValueError | KeyError | OtherException

text \<open>
  An exception that \<^verbatim>\<open>except Exception\<close> catches: its class and the text
  \<^verbatim>\<open>str(e)\<close>.
\<close>

datatype exn = Exc exc_class string

fun str_exn :: "exn \<Rightarrow> string" where
  "str_exn (Exc c m) = m"

fun type_name :: "pyval \<Rightarrow> string" where
  "type_name PNone = ''NoneType''"
| "type_name (PBool b) = ''bool''"
| "type_name (PInt i) = ''int''"
| "type_name (PFloat r) = ''float''"
| "type_name (PStr s) = ''str''"
| "type_name (PList xs) = ''list''"
| "type_name (PDict kvs) = ''dict''"
| "type_name (PRef a) = ''object''"

definition quoted :: "string \<Rightarrow> string" where
  "quoted s = [CHR 0x27] @ s @ [CHR 0x27]"

text \<open>\<^verbatim>\<open>d.get(k, default)\<close>: only a dict has the method.\<close>

fun py_get :: "pyval \<Rightarrow> string \<Rightarrow> pyval \<Rightarrow> exn + pyval" where
  "py_get (PDict kvs) k dflt = Inr (case map_of kvs k of None \<Rightarrow> dflt | Some v \<Rightarrow> v)"
| "py_get v k dflt =
     Inl (Exc AttributeError
            (quoted (type_name v) @ '' object has no attribute '' @ quoted ''get''))"

text \<open>Sequencing of steps that can raise.\<close>

definition bind_exn :: "exn + 'a \<Rightarrow> ('a \<Rightarrow> exn + 'b) \<Rightarrow> exn + 'b" where
  "bind_exn m f = (case m of Inl e \<Rightarrow> Inl e | Inr v \<Rightarrow> f v)"

text \<open>The value of a number; \<^verbatim>\<open>bool\<close> is a subclass of \<^verbatim>\<open>int\<close>.\<close>

fun num_value :: "pyval \<Rightarrow> rat option" where
  "num_value (PBool b) = Some (if b then 1 else 0)"
| "num_value (PInt i) = Some (of_int i)"
| "num_value (PFloat r) = Some r"
| "num_value v = None"

text \<open>
  An ordering comparison \<^verbatim>\<open>a op b\<close> in which one operand is a number: it raises
  unless the other operand is a number too.
\<close>

definition compare_num ::
  "string \<Rightarrow> (rat \<Rightarrow> rat \<Rightarrow> bool) \<Rightarrow> pyval \<Rightarrow> pyval \<Rightarrow> exn + bool" where
  "compare_num symbol rel a b =
     (case (num_value a, num_value b) of
        (Some x, Some y) \<Rightarrow> Inr (rel x y)
      | _ \<Rightarrow> Inl (Exc TypeError
                 (quoted symbol @ '' not supported between instances of ''
                    @ quoted (type_name a) @ '' and '' @ quoted (type_name b))))"

text \<open>
  \<^verbatim>\<open>d[k]\<close> with a string key.  Only a dict can be indexed so; the text given to
  the \<^verbatim>\<open>TypeError\<close> stands for Python's, which varies with the type indexed.
\<close>

fun py_getitem :: "pyval \<Rightarrow> string \<Rightarrow> exn + pyval" where
  "py_getitem (PDict kvs) k =
     (case map_of kvs k of None \<Rightarrow> Inl (Exc KeyError (quoted k)) | Some v \<Rightarrow> Inr v)"
| "py_getitem v k = Inl (Exc TypeError (''cannot index '' @ quoted (type_name v) @ '' with a str''))"

text \<open>\<^verbatim>\<open>dict.update\<close> with the entries of another dict, in their order.\<close>

definition dict_update :: "(string \<times> pyval) list \<Rightarrow> (string \<times> pyval) list \<Rightarrow> (string \<times> pyval) list" where
  "dict_update d other = foldl (\<lambda>acc (k, v). AList.update k v acc) d other"

section \<open>base\_agent.py: BaseAgent\<close>

text \<open>
  The attributes of an agent object that the methods of its subclass read and assign;
  \<open>attrs\<close> holds the attributes the subclass adds.  Two attributes are kept outside
  (in \<open>agent\<close> below) because no subclass of the repository reads or assigns them:
  \<open>name\<close> is assigned by the constructor only, \<open>is_active\<close> by the constructor,
  \<^verbatim>\<open>initialize\<close> and \<^verbatim>\<open>shutdown\<close> only.  \<open>objects\<close> holds the lists and dicts
  that the agent keeps and changes in place, by address.
\<close>

record 'x agent_state =
  cycle_interval :: int
  action_count :: nat
  last_action_time :: "string option"
  memory :: "(string \<times> pyval \<times> string) list"
  objects :: "(nat \<times> pyval) list"
  attrs :: 'x

text \<open>
  The abstract methods, supplied by each subclass.  A method takes the object's
  attributes and returns what it raised or returned together with the attributes as it
  left them: assignments made before a raise persist.  What a method returns may hold
  references to the agent's own objects.  What a method is handed (the shared memory
  for \<open>execute_cycle\<close>, the monitoring data for the extension methods) is what
  that reads as when the call is made.  No agent of the repository assigns into the
  shared memory or changes an object it found there (they call \<^verbatim>\<open>.get\<close> only);
  a method changes the attributes and objects of its own agent.  The two extension
  methods exist on some subclasses only.
\<close>

record 'x agent_class =
  agent_setup :: "'x agent_state \<Rightarrow> exn option \<times> 'x agent_state"
  agent_cleanup :: "'x agent_state \<Rightarrow> exn option \<times> 'x agent_state"
  execute_cycle :: "(string \<times> pyval) list \<Rightarrow> 'x agent_state \<Rightarrow> (exn + pyval) \<times> 'x agent_state"
  process_message :: "pyval \<Rightarrow> 'x agent_state \<Rightarrow> (exn + pyval) \<times> 'x agent_state"
  handle_pollution_alert ::
    "(pyval \<Rightarrow> 'x agent_state \<Rightarrow> (exn + pyval) \<times> 'x agent_state) option"
  coordinate_pollution_response ::
    "(pyval \<Rightarrow> 'x agent_state \<Rightarrow> (exn + pyval) \<times> 'x agent_state) option"

record 'x agent =
  name :: string
  methods :: "'x agent_class"
  is_active :: bool
  state :: "'x agent_state"

text \<open>\<^verbatim>\<open>BaseAgent.__init__(name, cycle_interval)\<close>, with the subclass's attributes.\<close>

definition BaseAgent :: "string \<Rightarrow> int \<Rightarrow> 'x agent_class \<Rightarrow> 'x \<Rightarrow> 'x agent" where
  "BaseAgent n interval cls x =
     \<lparr>name = n, methods = cls, is_active = False,
      state = \<lparr>cycle_interval = interval, action_count = 0,
               last_action_time = None, memory = [], objects = [], attrs = x\<rparr>\<rparr>"

text \<open>\<^verbatim>\<open>initialize\<close>: the flag is set first, then the subclass's setup runs.\<close>

definition initialize :: "'x agent \<Rightarrow> exn option \<times> 'x agent" where
  "initialize a =
     (let a1 = a\<lparr>is_active := True\<rparr>;
          (r, st1) = agent_setup (methods a1) (state a1)
      in (r, a1\<lparr>state := st1\<rparr>))"

text \<open>\<^verbatim>\<open>shutdown\<close>: the flag is cleared first, then the subclass's cleanup runs.\<close>

definition shutdown :: "'x agent \<Rightarrow> exn option \<times> 'x agent" where
  "shutdown a =
     (let a1 = a\<lparr>is_active := False\<rparr>;
          (r, st1) = agent_cleanup (methods a1) (state a1)
      in (r, a1\<lparr>state := st1\<rparr>))"

text \<open>\<^verbatim>\<open>handle_message\<close> logs and forwards to the subclass's handler.\<close>

definition handle_message :: "pyval \<Rightarrow> 'x agent \<Rightarrow> (exn + pyval) \<times> 'x agent" where
  "handle_message message a =
     (let (r, st1) = process_message (methods a) message (state a)
      in (r, a\<lparr>state := st1\<rparr>))"

definition record_action :: "string \<Rightarrow> 'x agent_state \<Rightarrow> 'x agent_state" where
  "record_action now st = st\<lparr>action_count := action_count st + 1, last_action_time := Some now\<rparr>"

definition store_memory :: "string \<Rightarrow> pyval \<Rightarrow> string \<Rightarrow> 'x agent_state \<Rightarrow> 'x agent_state" where
  "store_memory key v now st = st\<lparr>memory := AList.update key (v, now) (memory st)\<rparr>"

definition get_memory :: "string \<Rightarrow> 'x agent_state \<Rightarrow> pyval" where
  "get_memory key st = (case map_of (memory st) key of None \<Rightarrow> PNone | Some (v, t) \<Rightarrow> v)"

text \<open>
  A list or dict that a method builds and assigns to an attribute is a new object of
  the agent, at an address not in use; the attribute holds the address.  An object is
  read and changed in place by its address (an address not in use reads as
  \<^verbatim>\<open>None\<close>; no attribute holds one).
\<close>

definition new_object :: "pyval \<Rightarrow> 'x agent_state \<Rightarrow> nat \<times> 'x agent_state" where
  "new_object v st =
     (let a = fold (\<lambda>(b, w) n. max (Suc b) n) (objects st) 0
      in (a, st\<lparr>objects := objects st @ [(a, v)]\<rparr>))"

definition get_object :: "nat \<Rightarrow> 'x agent_state \<Rightarrow> pyval" where
  "get_object a st = (case map_of (objects st) a of None \<Rightarrow> PNone | Some v \<Rightarrow> v)"

definition set_object :: "nat \<Rightarrow> pyval \<Rightarrow> 'x agent_state \<Rightarrow> 'x agent_state" where
  "set_object a v st = st\<lparr>objects := AList.update a v (objects st)\<rparr>"

text \<open>
  What the \<^verbatim>\<open>except\<close> branch of every agent's \<^verbatim>\<open>execute_cycle\<close> returns:
  \<^verbatim>\<open>{"error": str(e)}\<close>.
\<close>

definition error_payload :: "string \<Rightarrow> pyval" where
  "error_payload message = PDict [(''error'', PStr message)]"

section \<open>agent\_orchestrator.py: AgentOrchestrator\<close>

datatype task = CycleTask string | CoordinationTask

datatype task_status = Pending | Cancelled | Done

text \<open>
  What the orchestrator does that can be seen from outside, in program order: the calls
  it makes on agents, the tasks it creates and cancels, the assignments into the shared
  memory with the task that made them, the sleeps and the log lines.
\<close>

datatype event =
    InitializeCalled string
  | ShutdownCalled string
  | TaskCreated task
  | CancelRequested task
  | ExecuteCycleCalled string
  | ExecuteCycleReturned string pyval
  | HandleMessageCalled string
  | PollutionAlertCalled string
  | PollutionResponseCalled string
  | MemoryWrite task string pyval
  | Slept task int
  | LogError string
  | LogInfo string

text \<open>
  \<open>agents\<close> and \<open>shared_memory\<close> are Python dicts: association lists in
  insertion order, read with \<^const>\<open>map_of\<close> and assigned with
  \<^const>\<open>AList.update\<close> (in place for a present key, appended for a new one).
  \<open>shared_memory\<close> holds what was assigned under each key: a value in which the
  objects that the writing agent keeps stand as references.
  \<open>trace\<close> is the history of events; no operation reads it.
\<close>

record 'x orchestrator =
  agents :: "(string \<times> 'x agent) list"
  running :: bool
  tasks :: "(task \<times> task_status) list"
  shared_memory :: "(string \<times> pyval) list"
  trace :: "event list"

text \<open>
  What the shared memory reads as.  The entry under a key was stored by reference: the
  references in it are to objects of the agent registered under that key, which wrote
  it, and are followed to what these objects hold now.
\<close>

definition read_shared_memory :: "'x orchestrator \<Rightarrow> (string \<times> pyval) list" where
  "read_shared_memory s =
     map (\<lambda>(k, v). (k, resolve (case map_of (agents s) k of
                                   None \<Rightarrow> [] | Some a \<Rightarrow> objects (state a)) v))
       (shared_memory s)"

definition emit :: "event list \<Rightarrow> 'x orchestrator \<Rightarrow> 'x orchestrator" where
  "emit evs s = s\<lparr>trace := trace s @ evs\<rparr>"

text \<open>An agent object mutated by one of its methods: the dict entry holds the new attributes.\<close>

definition set_agent :: "string \<Rightarrow> 'x agent \<Rightarrow> 'x orchestrator \<Rightarrow> 'x orchestrator" where
  "set_agent k a s = s\<lparr>agents := AList.update k a (agents s)\<rparr>"

text \<open>
  \<^verbatim>\<open>__init__\<close>: \<^verbatim>\<open>{agent.name: agent for agent in agents}\<close>.  A later agent
  with the name of an earlier one replaces it, at the earlier one's position.
\<close>

definition AgentOrchestrator :: "'x agent list \<Rightarrow> 'x orchestrator" where
  "AgentOrchestrator ags =
     \<lparr>agents = foldl (\<lambda>d a. AList.update (name a) a d) [] ags,
      running = False, tasks = [], shared_memory = [], trace = []\<rparr>"

subsection \<open>start\<close>

text \<open>The first loop of \<^verbatim>\<open>start\<close>; an exception of \<^verbatim>\<open>initialize\<close> leaves the loop.\<close>

fun initialize_all ::
  "(string \<times> 'x agent) list \<Rightarrow> exn option \<times> (string \<times> 'x agent) list \<times> event list" where
  "initialize_all [] = (None, [], [])"
| "initialize_all ((k, a) # rest) =
     (case initialize a of
        (Some e, a1) \<Rightarrow> (Some e, (k, a1) # rest, [InitializeCalled k])
      | (None, a1) \<Rightarrow>
          (case initialize_all rest of
             (r, rest1, evs) \<Rightarrow> (r, (k, a1) # rest1, InitializeCalled k # evs)))"

definition start :: "'x orchestrator \<Rightarrow> exn option \<times> 'x orchestrator" where
  "start s =
     (let s1 = s\<lparr>running := True\<rparr> in
      case initialize_all (agents s1) of
        (Some e, ags, evs) \<Rightarrow> (Some e, emit evs (s1\<lparr>agents := ags\<rparr>))
      | (None, ags, evs) \<Rightarrow>
          (let s2 = emit evs (s1\<lparr>agents := ags\<rparr>);
               cycle_tasks = map (\<lambda>(k, a). CycleTask k) ags;
               s3 = emit (map TaskCreated cycle_tasks)
                      (s2\<lparr>tasks := tasks s2 @ map (\<lambda>t. (t, Pending)) cycle_tasks\<rparr>);
               s4 = emit [TaskCreated CoordinationTask]
                      (s3\<lparr>tasks := tasks s3 @ [(CoordinationTask, Pending)]\<rparr>)
           in (None, emit [LogInfo ''All agents started successfully''] s4)))"

definition is_running :: "'x orchestrator \<Rightarrow> bool" where
  "is_running s = running s"

subsection \<open>stop\<close>

fun cancel :: "task_status \<Rightarrow> task_status" where
  "cancel Pending = Cancelled"
| "cancel Cancelled = Cancelled"
| "cancel Done = Done"

text \<open>The last loop of \<^verbatim>\<open>stop\<close>; it has no handler around \<^verbatim>\<open>shutdown\<close>.\<close>

fun shutdown_all ::
  "(string \<times> 'x agent) list \<Rightarrow> exn option \<times> (string \<times> 'x agent) list \<times> event list" where
  "shutdown_all [] = (None, [], [])"
| "shutdown_all ((k, a) # rest) =
     (case shutdown a of
        (Some e, a1) \<Rightarrow> (Some e, (k, a1) # rest, [ShutdownCalled k])
      | (None, a1) \<Rightarrow>
          (case shutdown_all rest of
             (r, rest1, evs) \<Rightarrow> (r, (k, a1) # rest1, ShutdownCalled k # evs)))"

text \<open>
  A cancelled task ends at the await it is suspended in (\<^verbatim>\<open>CancelledError\<close> is
  not an \<^verbatim>\<open>Exception\<close>, so no handler of the loops catches it), and
  \<^verbatim>\<open>gather(..., return_exceptions=True)\<close> collects that without raising.
\<close>

definition stop :: "'x orchestrator \<Rightarrow> exn option \<times> 'x orchestrator" where
  "stop s =
     (let s1 = s\<lparr>running := False\<rparr>;
          s2 = emit (map (\<lambda>(t, st). CancelRequested t) (tasks s1))
                 (s1\<lparr>tasks := map (\<lambda>(t, st). (t, cancel st)) (tasks s1)\<rparr>)
      in case shutdown_all (agents s2) of
           (Some e, ags, evs) \<Rightarrow> (Some e, emit evs (s2\<lparr>agents := ags\<rparr>))
         | (None, ags, evs) \<Rightarrow>
             (None, emit [LogInfo ''All agents stopped''] (emit evs (s2\<lparr>agents := ags\<rparr>))))"

subsection \<open>The cycle loop of one agent\<close>

definition envelope :: "string \<Rightarrow> pyval \<Rightarrow> pyval" where
  "envelope now result = PDict [(''last_update'', PStr now), (''data'', result)]"

text \<open>A loop whose condition is found false returns: its task is done.\<close>

definition finish_task :: "task \<Rightarrow> 'x orchestrator \<Rightarrow> 'x orchestrator" where
  "finish_task t s =
     s\<lparr>tasks := map (\<lambda>(t', st). if t' = t \<and> st = Pending then (t', Done) else (t', st)) (tasks s)\<rparr>"

text \<open>
  One pass of \<^verbatim>\<open>while self.running\<close> in \<^verbatim>\<open>_run_agent\<close>, from the test of the
  condition to the sleep it ends in; \<open>now\<close> is what \<^verbatim>\<open>datetime.now().isoformat()\<close>
  returns.  Tasks are scheduled cooperatively, so a pass is taken as one step.  The
  result is stored as it was returned, references included; its truth is that of what
  it reads as.  The sleep in the try block is given an \<^typ>\<open>int\<close> and does not
  raise (it would for a number of seconds too large for a float).
\<close>

definition run_agent_iteration :: "string \<Rightarrow> string \<Rightarrow> 'x orchestrator \<Rightarrow> 'x orchestrator" where
  "run_agent_iteration now k s =
     (case map_of (agents s) k of
        None \<Rightarrow> s
      | Some a \<Rightarrow>
          if \<not> running s then finish_task (CycleTask k) s
          else
            (case execute_cycle (methods a) (read_shared_memory s) (state a) of
               (Inr result, st1) \<Rightarrow>
                 (let s1 = emit [ExecuteCycleCalled k, ExecuteCycleReturned k result]
                             (set_agent k (a\<lparr>state := st1\<rparr>) s);
                      s2 = (if truthy (resolve (objects st1) result)
                            then emit [MemoryWrite (CycleTask k) (name a) (envelope now result)]
                                   (s1\<lparr>shared_memory :=
                                         AList.update (name a) (envelope now result) (shared_memory s1)\<rparr>)
                            else s1)
                  in emit [Slept (CycleTask k) (cycle_interval st1)] s2)
             | (Inl e, st1) \<Rightarrow>
                 emit [ExecuteCycleCalled k,
                       LogError (''Error in agent '' @ name a @ '': '' @ str_exn e),
                       Slept (CycleTask k) 5]
                   (set_agent k (a\<lparr>state := st1\<rparr>) s)))"

subsection \<open>The coordination loop\<close>

text \<open>
  A direct call of an extension method on the agent registered under \<open>k\<close>, written
  once for the two calls of \<^verbatim>\<open>_check_cross_agent_actions\<close>.  An agent that lacks
  the method makes the attribute access raise (the text of the exception leaves out the
  name of the agent's class).  The call assigns nothing in the shared memory; what the
  method changes in the objects of its agent shows in what the agent's entry reads as.
\<close>

definition call_extension ::
  "('x agent_class \<Rightarrow> (pyval \<Rightarrow> 'x agent_state \<Rightarrow> (exn + pyval) \<times> 'x agent_state) option) \<Rightarrow>
   string \<Rightarrow> (string \<Rightarrow> event) \<Rightarrow> string \<Rightarrow> pyval \<Rightarrow> 'x orchestrator \<Rightarrow>
   exn option \<times> 'x orchestrator" where
  "call_extension method method_name ev k arg s =
     (case map_of (agents s) k of
        None \<Rightarrow> (None, s)
      | Some a \<Rightarrow>
          (case method (methods a) of
             None \<Rightarrow> (Some (Exc AttributeError
                               (''object has no attribute '' @ quoted method_name)), s)
           | Some h \<Rightarrow>
               (case h arg (state a) of
                  (r, st1) \<Rightarrow>
                    ((case r of Inl e \<Rightarrow> Some e | Inr v \<Rightarrow> None),
                     emit [ev k] (set_agent k (a\<lparr>state := st1\<rparr>) s)))))"

definition check_cross_agent_actions :: "'x orchestrator \<Rightarrow> exn option \<times> 'x orchestrator" where
  "check_cross_agent_actions s =
     (case py_get (case map_of (read_shared_memory s) ''EnvironmentalMonitoringAgent'' of
                     None \<Rightarrow> PDict [] | Some entry \<Rightarrow> entry) ''data'' (PDict []) of
        Inl e \<Rightarrow> (Some e, s)
      | Inr monitoring_data \<Rightarrow>
          (case py_get monitoring_data ''pollution_alert'' PNone of
             Inl e \<Rightarrow> (Some e, s)
           | Inr flag \<Rightarrow>
               if truthy flag then
                 (case call_extension handle_pollution_alert ''handle_pollution_alert''
                         PollutionAlertCalled ''PredictiveActionAgent'' monitoring_data s of
                    (Some e, s1) \<Rightarrow> (Some e, s1)
                  | (None, s1) \<Rightarrow>
                      call_extension coordinate_pollution_response
                        ''coordinate_pollution_response''
                        PollutionResponseCalled ''CommunityCoordinationAgent'' monitoring_data s1)
               else (None, s)))"

text \<open>The two clock readings of \<^verbatim>\<open>_update_global_state\<close> are \<open>now1\<close> and \<open>now2\<close>.\<close>

definition system_entry :: "string \<Rightarrow> string \<Rightarrow> (string \<times> 'x agent) list \<Rightarrow> pyval" where
  "system_entry now1 now2 ags =
     PDict [(''timestamp'', PStr now1),
            (''agents_running'', PInt (int (length (filter (\<lambda>(k, a). is_active a) ags)))),
            (''total_actions'', PInt (int (sum_list (map (\<lambda>(k, a). action_count (state a)) ags)))),
            (''uptime'', PStr now2)]"

definition update_global_state :: "string \<Rightarrow> string \<Rightarrow> 'x orchestrator \<Rightarrow> 'x orchestrator" where
  "update_global_state now1 now2 s =
     emit [MemoryWrite CoordinationTask ''system'' (system_entry now1 now2 (agents s))]
       (s\<lparr>shared_memory :=
            AList.update ''system'' (system_entry now1 now2 (agents s)) (shared_memory s)\<rparr>)"

text \<open>One pass of \<^verbatim>\<open>while self.running\<close> in \<^verbatim>\<open>_coordinate_agents\<close>: a tick.\<close>

definition coordinate_agents_iteration ::
  "string \<Rightarrow> string \<Rightarrow> 'x orchestrator \<Rightarrow> 'x orchestrator" where
  "coordinate_agents_iteration now1 now2 s =
     (if \<not> running s then finish_task CoordinationTask s
      else
        (case check_cross_agent_actions s of
           (Some e, s1) \<Rightarrow>
             emit [LogError (''Error in coordination: '' @ str_exn e), Slept CoordinationTask 10] s1
         | (None, s1) \<Rightarrow>
             emit [Slept CoordinationTask 30] (update_global_state now1 now2 s1)))"

subsection \<open>Messages\<close>

definition send_message_to_agent ::
  "string \<Rightarrow> pyval \<Rightarrow> 'x orchestrator \<Rightarrow> (exn + pyval) \<times> 'x orchestrator" where
  "send_message_to_agent agent_name message s =
     (case map_of (agents s) agent_name of
        Some a \<Rightarrow>
          (case handle_message message a of
             (r, a1) \<Rightarrow> (r, emit [HandleMessageCalled agent_name] (set_agent agent_name a1 s)))
      | None \<Rightarrow> (Inl (Exc ValueError (''Agent '' @ agent_name @ '' not found'')), s))"

text \<open>The loop of \<^verbatim>\<open>broadcast_message\<close> over \<^verbatim>\<open>self.agents.items()\<close>.\<close>

fun broadcast_loop ::
  "pyval \<Rightarrow> (string \<times> 'x agent) list \<Rightarrow> (string \<times> pyval) list \<Rightarrow>
   (string \<times> pyval) list \<times> (string \<times> 'x agent) list \<times> event list" where
  "broadcast_loop message [] results = (results, [], [])"
| "broadcast_loop message ((k, a) # rest) results =
     (case handle_message message a of
        (r, a1) \<Rightarrow>
          (case broadcast_loop message rest
                  (AList.update k
                     (case r of Inr v \<Rightarrow> v | Inl e \<Rightarrow> PStr (''Error: '' @ str_exn e)) results) of
             (results1, rest1, evs) \<Rightarrow> (results1, (k, a1) # rest1, HandleMessageCalled k # evs)))"

definition broadcast_message ::
  "pyval \<Rightarrow> 'x orchestrator \<Rightarrow> (string \<times> pyval) list \<times> 'x orchestrator" where
  "broadcast_message message s =
     (case broadcast_loop message (agents s) [] of
        (results, ags, evs) \<Rightarrow> (results, emit evs (s\<lparr>agents := ags\<rparr>)))"

subsection \<open>Status\<close>

definition agent_get_status :: "'x agent \<Rightarrow> pyval" where
  "agent_get_status a =
     PDict [(''name'', PStr (name a)),
            (''active'', PBool (is_active a)),
            (''action_count'', PInt (int (action_count (state a)))),
            (''last_action'', (case last_action_time (state a) of None \<Rightarrow> PNone | Some t \<Rightarrow> PStr t)),
            (''cycle_interval'', PInt (cycle_interval (state a))),
            (''memory_keys'', PList (map (\<lambda>(k, v). PStr k) (memory (state a))))]"

text \<open>What \<^verbatim>\<open>get_status\<close> of the orchestrator stores under an agent's name.\<close>

definition status_entry :: "'x agent \<Rightarrow> pyval" where
  "status_entry a =
     PDict [(''active'', PBool (is_active a)),
            (''action_count'', PInt (int (action_count (state a)))),
            (''last_action'', (case last_action_time (state a) of None \<Rightarrow> PNone | Some t \<Rightarrow> PStr t)),
            (''status'', agent_get_status a)]"

definition get_status :: "'x orchestrator \<Rightarrow> pyval" where
  "get_status s =
     PDict [(''orchestrator_running'', PBool (running s)),
            (''agents'', PDict (map (\<lambda>(k, a). (k, status_entry a)) (agents s))),
            (''shared_memory_keys'', PList (map (\<lambda>(k, v). PStr k) (shared_memory s))),
            (''system_info'', (case map_of (shared_memory s) ''system'' of
                                None \<Rightarrow> PDict [] | Some v \<Rightarrow> v))]"

subsection \<open>The states an orchestrator can be in\<close>

text \<open>
  What can happen to an orchestrator: a call of one of its public operations, or a
  pass of the loop of one of its tasks (with the clock readings of that pass).
\<close>

datatype operation =
    Start
  | Stop
  | CyclePass string string
  | Tick string string
  | SendMessage string pyval
  | Broadcast pyval

fun step :: "operation \<Rightarrow> 'x orchestrator \<Rightarrow> 'x orchestrator" where
  "step Start s = snd (start s)"
| "step Stop s = snd (stop s)"
| "step (CyclePass now k) s = run_agent_iteration now k s"
| "step (Tick now1 now2) s = coordinate_agents_iteration now1 now2 s"
| "step (SendMessage k message) s = snd (send_message_to_agent k message s)"
| "step (Broadcast message) s = snd (broadcast_message message s)"

text \<open>
  A loop runs only in a task that was created and has neither been cancelled nor
  returned; the public operations can be called at any time.
\<close>

fun enabled :: "operation \<Rightarrow> 'x orchestrator \<Rightarrow> bool" where
  "enabled (CyclePass now k) s = ((CycleTask k, Pending) \<in> set (tasks s))"
| "enabled (Tick now1 now2) s = ((CoordinationTask, Pending) \<in> set (tasks s))"
| "enabled Start s = True"
| "enabled Stop s = True"
| "enabled (SendMessage k message) s = True"
| "enabled (Broadcast message) s = True"

text \<open>The states an orchestrator built from the agents \<open>ags\<close> can get into.\<close>

inductive reachable :: "'x agent list \<Rightarrow> 'x orchestrator \<Rightarrow> bool" for ags :: "'x agent list" where
  reachable_init: "reachable ags (AgentOrchestrator ags)"
| reachable_step: "reachable ags s \<Longrightarrow> enabled oper s \<Longrightarrow> reachable ags (step oper s)"

section \<open>predictive\_agent.py: PredictiveActionAgent\<close>

text \<open>
  The attributes of the subclass that the methods modelled here read or assign; the
  history of readings and the client of the completion service are left out.  The dict
  of models is an object of the agent: \<^verbatim>\<open>execute_cycle\<close> returns it as
  \<^verbatim>\<open>model_status\<close> and \<^verbatim>\<open>_update_models\<close> changes it in place.  The attribute
  holds its address.
\<close>

record predictive_attrs =
  prediction_threshold :: pyval
  prediction_models :: nat

text \<open>
  What the methods below need and is not modelled: the clock readings of a call (the
  time and the time four hours later, as ISO strings); the steps of a cycle between the
  test for monitoring data and the return (they record the data, predict, act and
  update the models, and yield the list of predictions and the list of actions or
  raise); and \<^verbatim>\<open>_predict_air_quality\<close>, whose body stands inside
  \<^verbatim>\<open>try ... except Exception\<close> with a handler that returns.
\<close>

record predictive_env =
  clock_now :: string
  clock_now_plus_4h :: string
  cycle_steps ::
    "pyval \<Rightarrow> predictive_attrs agent_state \<Rightarrow>
     (exn + pyval \<times> pyval) \<times> predictive_attrs agent_state"
  predict_air_quality :: "pyval \<Rightarrow> predictive_attrs agent_state \<Rightarrow> pyval"

definition get_pollution_prevention_actions :: "rat \<Rightarrow> string list" where
  "get_pollution_prevention_actions probability =
     (if probability > 1 / 2
      then [''increase_monitoring_frequency'', ''alert_community_coordinators'',
            ''prepare_air_filtration_systems'']
      else []) @
     (if probability > 7 / 10
      then [''activate_emergency_protocols'', ''coordinate_traffic_reduction'',
            ''notify_health_authorities'']
      else [])"

text \<open>
  \<^verbatim>\<open>min(0.95, len(risk_factors) * 0.3)\<close>.  The decimal literals and the product are
  taken at their decimal values; the floats compare with 0.5 and 0.7 the same way.
\<close>

definition pollution_probability :: "nat \<Rightarrow> rat" where
  "pollution_probability n = min (19 / 20) (of_nat n * (3 / 10))"

text \<open>The try block of \<^verbatim>\<open>_predict_pollution_events\<close>.\<close>

definition predict_pollution_events_try ::
  "predictive_env \<Rightarrow> pyval \<Rightarrow> predictive_attrs agent_state \<Rightarrow> exn + pyval" where
  "predict_pollution_events_try env monitoring_data st =
     bind_exn (py_get monitoring_data ''analysis'' (PDict [])) (\<lambda>analysis.
     bind_exn (py_get monitoring_data ''alerts'' (PList [])) (\<lambda>alerts.
     bind_exn (py_get analysis ''average_aqi'' (PInt 0)) (\<lambda>average_aqi.
     bind_exn (compare_num ''>'' (>) average_aqi (PInt 80)) (\<lambda>high.
     bind_exn (py_get analysis ''pollution_hotspots'' PNone) (\<lambda>hotspots.
       let risk_factors =
             (if high then [''high_baseline_pollution''] else []) @
             (if truthy hotspots then [''active_hotspots''] else []) @
             (if truthy alerts then [''recent_alerts''] else [])
       in if risk_factors = [] then Inr PNone
          else
            let probability = pollution_probability (length risk_factors) in
            bind_exn (py_getitem (get_object (prediction_models (attrs st)) st)
                        ''pollution_events'') (\<lambda>model.
            bind_exn (py_getitem model ''accuracy'') (\<lambda>accuracy.
              Inr (PDict
                [(''type'', PStr ''pollution_event''),
                 (''probability'', PFloat probability),
                 (''risk_factors'', PList (map PStr risk_factors)),
                 (''predicted_severity'',
                    PStr (if probability > 7 / 10 then ''high'' else ''moderate'')),
                 (''prediction_time'', PStr (clock_now_plus_4h env)),
                 (''confidence'', accuracy),
                 (''recommended_actions'',
                    PList (map PStr (get_pollution_prevention_actions probability)))]))))))))"

text \<open>\<^verbatim>\<open>_predict_pollution_events\<close>: the handler of the try block returns \<^verbatim>\<open>None\<close>.\<close>

definition predict_pollution_events ::
  "predictive_env \<Rightarrow> pyval \<Rightarrow> predictive_attrs agent_state \<Rightarrow> pyval" where
  "predict_pollution_events env monitoring_data st =
     (case predict_pollution_events_try env monitoring_data st of
        Inl e \<Rightarrow> PNone
      | Inr prediction \<Rightarrow> prediction)"

definition handle_air_quality_prediction :: "pyval \<Rightarrow> exn + (string \<times> pyval) list" where
  "handle_air_quality_prediction prediction =
     bind_exn (py_get prediction ''predicted_value'' PNone) (\<lambda>predicted_value.
     bind_exn (py_get prediction ''risk_level'' PNone) (\<lambda>risk_level.
       Inr [(''action_type'', PStr ''air_quality_alert''),
            (''details'', PDict
               [(''predicted_aqi'', predicted_value),
                (''risk_level'', risk_level),
                (''notifications_sent'',
                   PList [PStr ''community_coordinator'', PStr ''health_authorities'']),
                (''preventive_measures'',
                   PList [PStr ''increase_monitoring'', PStr ''prepare_air_filters''])])]))"

definition handle_pollution_event_prediction :: "pyval \<Rightarrow> exn + (string \<times> pyval) list" where
  "handle_pollution_event_prediction prediction =
     bind_exn (py_get prediction ''recommended_actions'' (PList [])) (\<lambda>recommended_actions.
     bind_exn (py_get prediction ''probability'' PNone) (\<lambda>probability.
     bind_exn (py_get prediction ''predicted_severity'' PNone) (\<lambda>severity.
       Inr [(''action_type'', PStr ''pollution_prevention''),
            (''details'', PDict
               [(''probability'', probability),
                (''actions_initiated'', recommended_actions),
                (''emergency_protocols'', PBool (severity = PStr ''high'')),
                (''coordination_requests'',
                   PList [PStr ''traffic_management'', PStr ''industrial_monitoring''])])])))"

definition handle_weather_prediction :: "pyval \<Rightarrow> exn + (string \<times> pyval) list" where
  "handle_weather_prediction prediction =
     bind_exn (py_get prediction ''predicted_conditions'' PNone) (\<lambda>conditions.
       Inr [(''action_type'', PStr ''weather_preparation''),
            (''details'', PDict
               [(''predicted_conditions'', conditions),
                (''preparation_actions'',
                   PList [PStr ''secure_monitoring_equipment'', PStr ''adjust_sampling_frequency'']),
                (''alerts_issued'', PBool (conditions = PStr ''storm_approaching''))])])"

text \<open>
  \<^verbatim>\<open>_take_autonomous_action\<close>.  The first \<^verbatim>\<open>prediction["type"]\<close> stands before the
  try block; what the block raises is recorded in the action.
\<close>

definition take_autonomous_action :: "predictive_env \<Rightarrow> pyval \<Rightarrow> pyval \<Rightarrow> exn + pyval" where
  "take_autonomous_action env prediction monitoring_data =
     bind_exn (py_getitem prediction ''type'') (\<lambda>prediction_type.
       let action = [(''timestamp'', PStr (clock_now env)), (''prediction_type'', prediction_type),
                     (''action_type'', PStr []), (''details'', PDict []), (''success'', PBool True)];
           attempt =
             (if prediction_type = PStr ''air_quality''
              then bind_exn (handle_air_quality_prediction prediction)
                     (\<lambda>u. Inr (dict_update action u))
              else if prediction_type = PStr ''pollution_event''
              then bind_exn (handle_pollution_event_prediction prediction)
                     (\<lambda>u. Inr (dict_update action u))
              else if prediction_type = PStr ''weather_patterns''
              then bind_exn (handle_weather_prediction prediction)
                     (\<lambda>u. Inr (dict_update action u))
              else Inr action)
       in Inr (PDict (case attempt of
                        Inr updated \<Rightarrow> updated
                      | Inl e \<Rightarrow>
                          dict_update action
                            [(''success'', PBool False), (''error'', PStr (str_exn e))])))"

text \<open>\<^verbatim>\<open>handle_pollution_alert\<close> of the predictive agent.\<close>

definition predictive_handle_pollution_alert ::
  "predictive_env \<Rightarrow> pyval \<Rightarrow> predictive_attrs agent_state \<Rightarrow>
   (exn + pyval) \<times> predictive_attrs agent_state" where
  "predictive_handle_pollution_alert env alert_data st =
     (let prediction = predict_pollution_events env alert_data st;
          no_action = (Inr (PDict [(''status'', PStr ''no_action_needed'')]), st)
      in if \<not> truthy prediction then no_action
         else
           (case bind_exn (py_get prediction ''probability'' (PInt 0))
                   (\<lambda>p. compare_num ''>'' (>) p (PFloat (1 / 2))) of
              Inl e \<Rightarrow> (Inl e, st)
            | Inr False \<Rightarrow> no_action
            | Inr True \<Rightarrow>
                (case take_autonomous_action env prediction alert_data of
                   Inl e \<Rightarrow> (Inl e, st)
                 | Inr action \<Rightarrow>
                     (Inr (PDict [(''prediction'', prediction), (''action'', action),
                                  (''status'', PStr ''processed'')]),
                      record_action (clock_now env) st))))"

text \<open>\<^verbatim>\<open>_process_message\<close> of the predictive agent.\<close>

definition predictive_process_message ::
  "predictive_env \<Rightarrow> pyval \<Rightarrow> predictive_attrs agent_state \<Rightarrow>
   (exn + pyval) \<times> predictive_attrs agent_state" where
  "predictive_process_message env message st =
     (let unknown = (Inr (PDict [(''status'', PStr ''unknown_message_type'')]), st) in
      case py_get message ''type'' PNone of
        Inl e \<Rightarrow> (Inl e, st)
      | Inr message_type \<Rightarrow>
          if message_type = PStr ''get_predictions''
          then (Inr (get_memory ''latest_predictions'' st), st)
          else if message_type = PStr ''request_prediction''
          then
            (case bind_exn (py_get message ''prediction_type'' PNone) (\<lambda>prediction_type.
                  bind_exn (py_get message ''data'' (PDict [])) (\<lambda>data.
                    Inr (prediction_type, data))) of
               Inl e \<Rightarrow> (Inl e, st)
             | Inr (prediction_type, data) \<Rightarrow>
                 if prediction_type = PStr ''air_quality''
                 then (Inr (predict_air_quality env data st), st)
                 else if prediction_type = PStr ''pollution_event''
                 then (Inr (predict_pollution_events env data st), st)
                 else unknown)
          else if message_type = PStr ''update_threshold''
          then
            (case bind_exn (py_get message ''threshold'' PNone) (\<lambda>new_threshold.
                  bind_exn (compare_num ''<='' (\<le>) (PInt 0) new_threshold) (\<lambda>above.
                    if above
                    then bind_exn (compare_num ''<='' (\<le>) new_threshold (PInt 1))
                           (\<lambda>below. Inr (new_threshold, below))
                    else Inr (new_threshold, False))) of
               Inl e \<Rightarrow> (Inl e, st)
             | Inr (new_threshold, in_range) \<Rightarrow>
                 if in_range
                 then (Inr (PDict [(''status'', PStr ''success''), (''new_threshold'', new_threshold)]),
                       st\<lparr>attrs := (attrs st)\<lparr>prediction_threshold := new_threshold\<rparr>\<rparr>)
                 else unknown)
          else unknown)"

text \<open>
  \<^verbatim>\<open>_setup\<close> of the predictive agent; the client of the completion service is left
  out.  The attribute is bound to a new dict of models.
\<close>

definition predictive_setup ::
  "predictive_env \<Rightarrow> predictive_attrs agent_state \<Rightarrow> exn option \<times> predictive_attrs agent_state" where
  "predictive_setup env st =
     (let model = (\<lambda>accuracy. PDict [(''accuracy'', PFloat accuracy), (''last_trained'', PStr (clock_now env))]);
          (a, st1) = new_object (PDict [(''air_quality'', model (85 / 100)),
                                        (''weather_patterns'', model (78 / 100)),
                                        (''pollution_events'', model (82 / 100))]) st;
          st2 = st1\<lparr>attrs := (attrs st1)\<lparr>prediction_models := a\<rparr>\<rparr>
      in (None, store_memory ''actions_taken'' (PInt 0) (clock_now env)
                  (store_memory ''predictions_made'' (PInt 0) (clock_now env) st2)))"

text \<open>
  \<^verbatim>\<open>execute_cycle\<close> of the predictive agent.  Everything stands in the try block,
  whose handler returns an error payload.  The result holds the dict of models itself.
\<close>

definition predictive_execute_cycle ::
  "predictive_env \<Rightarrow> (string \<times> pyval) list \<Rightarrow> predictive_attrs agent_state \<Rightarrow>
   (exn + pyval) \<times> predictive_attrs agent_state" where
  "predictive_execute_cycle env shared st =
     (case py_get (case map_of shared ''EnvironmentalMonitoringAgent'' of
                     None \<Rightarrow> PDict [] | Some entry \<Rightarrow> entry) ''data'' (PDict []) of
        Inl e \<Rightarrow> (Inr (error_payload (str_exn e)), st)
      | Inr monitoring_data \<Rightarrow>
          if \<not> truthy monitoring_data
          then (Inr (PDict [(''status'', PStr ''no_data''),
                            (''message'', PStr ''No monitoring data available'')]), st)
          else
            (case cycle_steps env monitoring_data st of
               (Inl e, st1) \<Rightarrow> (Inr (error_payload (str_exn e)), st1)
             | (Inr (predictions, actions), st1) \<Rightarrow>
                 (Inr (PDict [(''predictions'', predictions),
                              (''actions_taken'', actions),
                              (''model_status'', PRef (prediction_models (attrs st1))),
                              (''timestamp'', PStr (clock_now env))]),
                  record_action (clock_now env) st1)))"

definition PredictiveActionAgent_class :: "predictive_env \<Rightarrow> predictive_attrs agent_class" where
  "PredictiveActionAgent_class env =
     \<lparr>agent_setup = predictive_setup env,
      agent_cleanup = (\<lambda>st. (None, st)),
      execute_cycle = predictive_execute_cycle env,
      process_message = predictive_process_message env,
      handle_pollution_alert = Some (predictive_handle_pollution_alert env),
      coordinate_pollution_response = None\<rparr>"

text \<open>
  \<^verbatim>\<open>PredictiveActionAgent()\<close>, with the threshold read from the environment.  The
  empty dict of models is the agent's first object.
\<close>

definition PredictiveActionAgent :: "predictive_env \<Rightarrow> rat \<Rightarrow> predictive_attrs agent" where
  "PredictiveActionAgent env threshold =
     (let a = BaseAgent ''PredictiveActionAgent'' 600 (PredictiveActionAgent_class env)
                \<lparr>prediction_threshold = PFloat threshold, prediction_models = 0\<rparr>
      in a\<lparr>state := (state a)\<lparr>objects := [(0, PDict [])]\<rparr>\<rparr>)"

section \<open>community\_agent.py: CommunityCoordinationAgent\<close>

text \<open>
  The attributes of the subclass that the methods modelled here read or assign.  The
  list of active campaigns is an object of the agent: \<^verbatim>\<open>execute_cycle\<close> returns it
  as \<^verbatim>\<open>active_campaigns\<close>, \<^verbatim>\<open>coordinate_pollution_response\<close> and the cycle append
  to it, the message handlers change campaigns in it, and the clean-up at the end of
  \<^verbatim>\<open>_manage_campaigns\<close> binds the attribute to a new list.  The attribute holds its
  address; the campaigns are written out in the list.  The list of members is assigned
  by the setup and only read.  The radius, the history and the client of the
  completion service are left out.
\<close>

record community_attrs =
  active_campaigns :: nat
  community_members :: "pyval list"

text \<open>
  What the methods below need and is not modelled: the clock readings of a call (the
  time and the time a week later, as ISO strings), the texts that f-strings build from
  a count and the clock (the identifiers of a campaign and of its actions) or from a
  value (\<^verbatim>\<open>str\<close>), the steps of a cycle from the reads of the shared memory to
  the metrics (they assess the needs, manage the campaigns, coordinate the actions and
  yield the needs, the actions and the metrics, or raise), and the message handler.
\<close>

record community_env =
  campaign_clock :: string
  campaign_deadline :: string
  campaign_id_text :: "nat \<Rightarrow> string"
  action_id_text :: "nat \<Rightarrow> string"
  text_of :: "pyval \<Rightarrow> string"
  coordination_steps ::
    "(string \<times> pyval) list \<Rightarrow> community_attrs agent_state \<Rightarrow>
     (exn + pyval \<times> pyval \<times> pyval) \<times> community_attrs agent_state"
  community_process_message ::
    "pyval \<Rightarrow> community_attrs agent_state \<Rightarrow> (exn + pyval) \<times> community_attrs agent_state"

text \<open>\<^verbatim>\<open>_setup\<close> of the community agent; the client of the completion service is left out.\<close>

definition community_setup ::
  "community_env \<Rightarrow> community_attrs agent_state \<Rightarrow> exn option \<times> community_attrs agent_state" where
  "community_setup env st =
     (let user = (\<lambda>ident nm location score.
                    PDict [(''id'', PStr ident), (''name'', PStr nm), (''location'', PStr location),
                           (''engagement_score'', PInt score)]);
          organization = (\<lambda>ident nm reach.
                    PDict [(''id'', PStr ident), (''name'', PStr nm), (''type'', PStr ''organization''),
                           (''reach'', PInt reach)]);
          st1 = st\<lparr>attrs := (attrs st)\<lparr>community_members :=
                   [user ''user_001'' ''Alice Johnson'' ''City Center'' 85,
                    user ''user_002'' ''Bob Smith'' ''Industrial Zone'' 72,
                    user ''user_003'' ''Carol Davis'' ''Residential Area'' 91,
                    organization ''org_001'' ''Green City Initiative'' 500,
                    organization ''org_002'' ''Local Environmental Group'' 200]\<rparr>\<rparr>
      in (None, store_memory ''participants_coordinated'' (PInt 0) (campaign_clock env)
                  (store_memory ''campaigns_created'' (PInt 0) (campaign_clock env) st1)))"

text \<open>
  \<^verbatim>\<open>execute_cycle\<close> of the community agent.  Everything stands in the try block, whose
  handler returns an error payload.  The result holds the list of active campaigns
  itself, as the attribute is bound when the cycle returns.
\<close>

definition community_execute_cycle ::
  "community_env \<Rightarrow> (string \<times> pyval) list \<Rightarrow> community_attrs agent_state \<Rightarrow>
   (exn + pyval) \<times> community_attrs agent_state" where
  "community_execute_cycle env shared st =
     (case coordination_steps env shared st of
        (Inl e, st1) \<Rightarrow> (Inr (error_payload (str_exn e)), st1)
      | (Inr (coordination_needs, coordinated_actions, engagement_metrics), st1) \<Rightarrow>
          (Inr (PDict [(''coordination_needs'', coordination_needs),
                       (''active_campaigns'', PRef (active_campaigns (attrs st1))),
                       (''coordinated_actions'', coordinated_actions),
                       (''engagement_metrics'', engagement_metrics),
                       (''timestamp'', PStr (campaign_clock env))]),
           record_action (campaign_clock env) st1))"

text \<open>
  \<^verbatim>\<open>_generate_campaign_title\<close>.  The type of a need is one of the string literals of
  the two callers.
\<close>

definition generate_campaign_title :: "community_env \<Rightarrow> pyval \<Rightarrow> pyval \<Rightarrow> string" where
  "generate_campaign_title env need_type location =
     (let place = text_of env location in
      if need_type = PStr ''alert_response''
      then ''Emergency Response: '' @ place @ '' Environmental Alert''
      else if need_type = PStr ''preventive_action''
      then ''Prevent Environmental Issues in '' @ place
      else if need_type = PStr ''air_quality_improvement''
      then ''Clear Air Initiative for '' @ place
      else if need_type = PStr ''pollution_reduction''
      then ''Pollution Prevention Campaign - '' @ place
      else ''Environmental Action Needed in '' @ place)"

text \<open>
  \<^verbatim>\<open>_generate_campaign_actions\<close>: the base actions of the type of need, each with the
  same identifier (built from the number of actions and the clock).
\<close>

definition campaign_action :: "community_env \<Rightarrow> nat \<Rightarrow> string \<times> int \<times> string \<Rightarrow> pyval" where
  "campaign_action env n = (\<lambda>(action, points, difficulty).
     PDict [(''action'', PStr action), (''points'', PInt points), (''difficulty'', PStr difficulty),
            (''id'', PStr (action_id_text env n)), (''participants'', PList []),
            (''completed_count'', PInt 0), (''impact_estimate'', PInt (points * 2))])"

definition generate_campaign_actions :: "community_env \<Rightarrow> pyval \<Rightarrow> pyval list" where
  "generate_campaign_actions env need_type =
     (if need_type = PStr ''alert_response''
      then map (campaign_action env 4)
             [(''report_environmental_conditions'', 10, ''easy''),
              (''share_safety_information'', 15, ''easy''),
              (''organize_local_cleanup'', 50, ''hard''),
              (''contact_local_authorities'', 25, ''medium'')]
      else if need_type = PStr ''air_quality_improvement''
      then map (campaign_action env 4)
             [(''use_public_transportation'', 20, ''easy''),
              (''plant_air_purifying_plants'', 30, ''medium''),
              (''organize_car_free_day'', 100, ''hard''),
              (''install_air_quality_monitor'', 40, ''medium'')]
      else map (campaign_action env 3)
             [(''environmental_monitoring'', 15, ''easy''),
              (''community_education'', 25, ''medium''),
              (''organize_group_action'', 75, ''hard'')])"

text \<open>\<^verbatim>\<open>_calculate_target_participants\<close>, given the number of members.\<close>

definition calculate_target_participants :: "pyval \<Rightarrow> pyval \<Rightarrow> nat \<Rightarrow> int" where
  "calculate_target_participants priority location members =
     (let base_target = (if priority = PStr ''high'' then 30
                         else if priority = PStr ''medium'' then 20 else 10);
          adjusted = (if location \<noteq> PStr ''general'' then max 5 (base_target div 2)
                      else base_target)
      in min adjusted (int members))"

text \<open>
  \<^verbatim>\<open>v + n\<close> for an int \<open>n\<close>; the text given to the \<^verbatim>\<open>TypeError\<close> stands for
  Python's, which varies with the type of \<open>v\<close>.
\<close>

definition add_int :: "pyval \<Rightarrow> int \<Rightarrow> exn + pyval" where
  "add_int v n =
     (case v of
        PInt i \<Rightarrow> Inr (PInt (i + n))
      | PBool b \<Rightarrow> Inr (PInt ((if b then 1 else 0) + n))
      | PFloat r \<Rightarrow> Inr (PFloat (r + of_int n))
      | _ \<Rightarrow> Inl (Exc TypeError
                  (''unsupported operand type(s) for +: '' @ quoted (type_name v)
                     @ '' and '' @ quoted ''int'')))"

text \<open>
  \<^verbatim>\<open>_create_campaign\<close>: the campaign for a need and the count kept in the memory.
  The attribute \<^verbatim>\<open>active_campaigns\<close> always holds a list.
\<close>

definition create_campaign ::
  "community_env \<Rightarrow> pyval \<Rightarrow> community_attrs agent_state \<Rightarrow>
   exn + pyval \<times> community_attrs agent_state" where
  "create_campaign env need st =
     (case get_object (active_campaigns (attrs st)) st of
        PList campaigns \<Rightarrow>
          bind_exn (py_get need ''type'' PNone) (\<lambda>need_type.
          bind_exn (py_get need ''priority'' PNone) (\<lambda>priority.
          bind_exn (py_get need ''location'' PNone) (\<lambda>location.
          bind_exn (py_get need ''type'' (PStr ''environmental_action'')) (\<lambda>title_type.
          bind_exn (py_get need ''location'' (PStr ''community'')) (\<lambda>title_location.
          bind_exn (py_get need ''description'' PNone) (\<lambda>description.
          bind_exn (py_get need ''priority'' (PStr ''medium'')) (\<lambda>target_priority.
          bind_exn (py_get need ''location'' (PStr ''general'')) (\<lambda>target_location.
          bind_exn (add_int (let created = get_memory ''campaigns_created'' st
                             in if truthy created then created else PInt 0) 1) (\<lambda>created.
            Inr (PDict
                   [(''id'', PStr (campaign_id_text env (length campaigns + 1))),
                    (''type'', need_type),
                    (''priority'', priority),
                    (''location'', location),
                    (''title'', PStr (generate_campaign_title env title_type title_location)),
                    (''description'', description),
                    (''actions'', PList (generate_campaign_actions env need_type)),
                    (''target_participants'',
                       PInt (calculate_target_participants target_priority target_location
                               (length (community_members (attrs st))))),
                    (''current_participants'', PList []),
                    (''status'', PStr ''active''),
                    (''created_at'', PStr (campaign_clock env)),
                    (''deadline'', PStr (campaign_deadline env)),
                    (''metrics'', PDict [(''participants_joined'', PInt 0),
                                         (''actions_completed'', PInt 0),
                                         (''impact_score'', PInt 0)])],
                 store_memory ''campaigns_created'' created (campaign_clock env) st))))))))))
      | _ \<Rightarrow> Inl (Exc TypeError ''object has no len()''))"

text \<open>
  \<^verbatim>\<open>_recruit_emergency_participants\<close>: the members with a score above 70, then a
  participant for each of the first ten.  The loop appends each participant to the
  campaign as it goes; \<open>recruit_loop\<close> yields those appended, and what stopped it.
\<close>

fun high_engagement_members :: "pyval list \<Rightarrow> exn + pyval list" where
  "high_engagement_members [] = Inr []"
| "high_engagement_members (member # members) =
     bind_exn (py_get member ''engagement_score'' (PInt 0)) (\<lambda>score.
     bind_exn (compare_num ''>'' (>) score (PInt 70)) (\<lambda>high.
     bind_exn (high_engagement_members members) (\<lambda>others.
       Inr (if high then member # others else others))))"

fun recruit_loop :: "community_env \<Rightarrow> pyval list \<Rightarrow> exn option \<times> pyval list" where
  "recruit_loop env [] = (None, [])"
| "recruit_loop env (member # members) =
     (case bind_exn (py_getitem member ''id'') (\<lambda>user_id.
           bind_exn (py_getitem member ''name'') (\<lambda>user_name.
             Inr (PDict [(''user_id'', user_id), (''name'', user_name),
                         (''joined_at'', PStr (campaign_clock env)),
                         (''assigned_actions'', PList []),
                         (''completed_actions'', PList []),
                         (''emergency_participant'', PBool True)]))) of
        Inl e \<Rightarrow> (Some e, [])
      | Inr participant \<Rightarrow>
          (case recruit_loop env members of (r, others) \<Rightarrow> (r, participant # others)))"

text \<open>\<^verbatim>\<open>self.active_campaigns.append(campaign)\<close>: the list is changed in place.\<close>

definition append_campaign :: "pyval \<Rightarrow> community_attrs agent_state \<Rightarrow> community_attrs agent_state" where
  "append_campaign campaign st =
     (case get_object (active_campaigns (attrs st)) st of
        PList campaigns \<Rightarrow> set_object (active_campaigns (attrs st)) (PList (campaigns @ [campaign])) st
      | _ \<Rightarrow> st)"

text \<open>A campaign with the participants that have been appended to it.\<close>

definition with_participants :: "pyval \<Rightarrow> pyval list \<Rightarrow> pyval" where
  "with_participants campaign participants =
     (case campaign of
        PDict kvs \<Rightarrow> PDict (AList.update ''current_participants'' (PList participants) kvs)
      | _ \<Rightarrow> campaign)"

text \<open>
  \<^verbatim>\<open>coordinate_pollution_response\<close>.  It has no handler: what a step raises leaves
  it.  The campaign is appended to the list before the participants are recruited into
  it, so the list ends up with the campaign and the participants recruited so far.
\<close>

definition community_coordinate_pollution_response ::
  "community_env \<Rightarrow> pyval \<Rightarrow> community_attrs agent_state \<Rightarrow>
   (exn + pyval) \<times> community_attrs agent_state" where
  "community_coordinate_pollution_response env pollution_data st =
     (case py_get pollution_data ''location'' (PStr ''general'') of
        Inl e \<Rightarrow> (Inl e, st)
      | Inr location \<Rightarrow>
          (case create_campaign env
                  (PDict [(''type'', PStr ''pollution_emergency''),
                          (''priority'', PStr ''high''),
                          (''location'', location),
                          (''description'', PStr ''Emergency community response to pollution event''),
                          (''source'', PStr ''pollution_alert''),
                          (''data'', pollution_data)]) st of
             Inl e \<Rightarrow> (Inl e, st)
           | Inr (campaign, st1) \<Rightarrow>
               if \<not> truthy campaign
               then (Inr (PDict [(''status'', PStr ''failed_to_coordinate'')]), st1)
               else
                 (case high_engagement_members (community_members (attrs st1)) of
                    Inl e \<Rightarrow> (Inl e, append_campaign campaign st1)
                  | Inr members \<Rightarrow>
                      (case recruit_loop env (take 10 members) of
                         (r, participants) \<Rightarrow>
                           (let joined = with_participants campaign participants;
                                st2 = append_campaign joined st1
                            in case r of
                                 Some e \<Rightarrow> (Inl e, st2)
                               | None \<Rightarrow>
                                   (Inr (PDict [(''campaign'', joined),
                                                (''participants'', PList participants),
                                                (''status'', PStr ''coordinated'')]),
                                    record_action (campaign_clock env) st2))))))"

definition CommunityCoordinationAgent_class :: "community_env \<Rightarrow> community_attrs agent_class" where
  "CommunityCoordinationAgent_class env =
     \<lparr>agent_setup = community_setup env,
      agent_cleanup = (\<lambda>st. (None, st)),
      execute_cycle = community_execute_cycle env,
      process_message = community_process_message env,
      handle_pollution_alert = None,
      coordinate_pollution_response = Some (community_coordinate_pollution_response env)\<rparr>"

text \<open>
  \<^verbatim>\<open>CommunityCoordinationAgent()\<close>.  The empty list of campaigns is the agent's first
  object.
\<close>

definition CommunityCoordinationAgent :: "community_env \<Rightarrow> community_attrs agent" where
  "CommunityCoordinationAgent env =
     (let a = BaseAgent ''CommunityCoordinationAgent'' 900 (CommunityCoordinationAgent_class env)
                \<lparr>active_campaigns = 0, community_members = []\<rparr>
      in a\<lparr>state := (state a)\<lparr>objects := [(0, PList [])]\<rparr>\<rparr>)"

section \<open>Notions for the properties\<close>

fun is_write :: "event \<Rightarrow> bool" where
  "is_write (MemoryWrite t k v) = True"
| "is_write ev = False"

text \<open>A change of state that leaves the shared memory alone and records no write.\<close>

definition no_write :: "'x orchestrator \<Rightarrow> 'x orchestrator \<Rightarrow> bool" where
  "no_write s s' =
     (shared_memory s' = shared_memory s \<and>
      (\<exists>evs. trace s' = trace s @ evs \<and> list_all (\<lambda>ev. \<not> is_write ev) evs))"

text \<open>
  A write is in order when the coordination task made it under \<^verbatim>\<open>system\<close>, or
  the cycle task of a registered agent made it under the agent's key, with an envelope
  around a result that a cycle of this agent returned.
\<close>

definition legitimate_write :: "string set \<Rightarrow> event list \<Rightarrow> task \<Rightarrow> string \<Rightarrow> pyval \<Rightarrow> bool" where
  "legitimate_write keys tr t key v =
     ((t = CoordinationTask \<and> key = ''system'') \<or>
      (t = CycleTask key \<and> key \<in> keys \<and>
       (\<exists>now r. v = envelope now r \<and> ExecuteCycleReturned key r \<in> set tr)))"

text \<open>Every recorded write is in order, and every entry of the shared memory was written.\<close>

definition memory_discipline :: "'x orchestrator \<Rightarrow> bool" where
  "memory_discipline s =
     ((\<forall>t key v. MemoryWrite t key v \<in> set (trace s) \<longrightarrow>
          legitimate_write (fst ` set (agents s)) (trace s) t key v) \<and>
      (\<forall>key v. map_of (shared_memory s) key = Some v \<longrightarrow>
          (\<exists>t. MemoryWrite t key v \<in> set (trace s))))"

text \<open>
  The condition of the rule as the spec words it: the data that the monitoring agent
  published last holds a truthy \<^verbatim>\<open>pollution_alert\<close>.
\<close>

definition pollution_alert_published :: "'x orchestrator \<Rightarrow> bool" where
  "pollution_alert_published s =
     (case map_of (read_shared_memory s) ''EnvironmentalMonitoringAgent'' of
        None \<Rightarrow> False
      | Some entry \<Rightarrow>
          (case py_get entry ''data'' (PDict []) of
             Inl e \<Rightarrow> False
           | Inr monitoring_data \<Rightarrow>
               (case py_get monitoring_data ''pollution_alert'' PNone of
                  Inl e \<Rightarrow> False
                | Inr flag \<Rightarrow> truthy flag)))"

text \<open>
  What the rule of the coordination tick hands to the methods it calls: the data that
  the monitoring agent published last, as it reads now.
\<close>

definition published_monitoring_data :: "'x orchestrator \<Rightarrow> pyval" where
  "published_monitoring_data s =
     (case map_of (read_shared_memory s) ''EnvironmentalMonitoringAgent'' of
        None \<Rightarrow> PDict []
      | Some entry \<Rightarrow>
          (case py_get entry ''data'' (PDict []) of Inl e \<Rightarrow> PDict [] | Inr d \<Rightarrow> d))"



text \<open>
  The first call of the rule lets the second be made: no agent is registered as
  \<^verbatim>\<open>PredictiveActionAgent\<close>, or the one registered has the method and its call with
  the published data returns.
\<close>

definition alert_call_returns :: "'x orchestrator \<Rightarrow> bool" where
  "alert_call_returns s =
     (case map_of (agents s) ''PredictiveActionAgent'' of
        None \<Rightarrow> True
      | Some a \<Rightarrow>
          (case handle_pollution_alert (methods a) of
             None \<Rightarrow> False
           | Some h \<Rightarrow>
               (case fst (h (published_monitoring_data s) (state a)) of
                  Inl e \<Rightarrow> False | Inr v \<Rightarrow> True)))"





text \<open>The event of a cycle of the agent under \<open>k\<close> that returned.\<close>

fun is_cycle_return :: "string \<Rightarrow> event \<Rightarrow> bool" where
  "is_cycle_return k (ExecuteCycleReturned k' r) = (k' = k)"
| "is_cycle_return k ev = False"

section \<open>Agents for the examples\<close>

text \<open>
  An agent whose four methods have fixed outcomes and leave its attributes alone: what
  setup and cleanup raise, what a cycle raises or returns, what the message handler
  raises or returns.  It has no extension method.
\<close>

definition scripted_class ::
  "exn option \<Rightarrow> exn option \<Rightarrow> exn + pyval \<Rightarrow> exn + pyval \<Rightarrow> unit agent_class" where
  "scripted_class su cl cy ms =
     \<lparr>agent_setup = (\<lambda>st. (su, st)), agent_cleanup = (\<lambda>st. (cl, st)),
      execute_cycle = (\<lambda>sm st. (cy, st)), process_message = (\<lambda>m st. (ms, st)),
      handle_pollution_alert = None, coordinate_pollution_response = None\<rparr>"

definition scripted_agent ::
  "string \<Rightarrow> exn option \<Rightarrow> exn option \<Rightarrow> exn + pyval \<Rightarrow> exn + pyval \<Rightarrow> unit agent" where
  "scripted_agent n su cl cy ms = BaseAgent n 60 (scripted_class su cl cy ms) ()"

text \<open>An agent that does nothing and reports nothing.\<close>

definition quiet_agent :: "string \<Rightarrow> unit agent" where
  "quiet_agent n = scripted_agent n None None (Inr (PDict [])) (Inr PNone)"

text \<open>An agent whose setup raises.\<close>

definition broken_setup_agent :: "string \<Rightarrow> unit agent" where
  "broken_setup_agent n =
     scripted_agent n (Some (Exc OtherException ''no session'')) None (Inr (PDict [])) (Inr PNone)"

text \<open>An agent whose setup stores a note in its memory.\<close>

definition preparing_agent :: "string \<Rightarrow> unit agent" where
  "preparing_agent n =
     BaseAgent n 60
       ((scripted_class None None (Inr (PDict [])) (Inr PNone))
          \<lparr>agent_setup := (\<lambda>st. (None, store_memory ''ready'' (PBool True) ''12:00'' st))\<rparr>) ()"

text \<open>An agent whose cleanup raises.\<close>

definition broken_cleanup_agent :: "string \<Rightarrow> unit agent" where
  "broken_cleanup_agent n =
     scripted_agent n None (Some (Exc OtherException ''session is closed'')) (Inr (PDict [])) (Inr PNone)"

text \<open>Agents that answer a message, and one whose handler raises.\<close>

definition answering_agent :: "string \<Rightarrow> pyval \<Rightarrow> unit agent" where
  "answering_agent n answer = scripted_agent n None None (Inr (PDict [])) (Inr answer)"

definition broken_handler_agent :: "string \<Rightarrow> unit agent" where
  "broken_handler_agent n =
     scripted_agent n None None (Inr (PDict [])) (Inl (Exc KeyError ''id''))"

text \<open>An agent whose every cycle fails inside and reports it with an error payload.\<close>

definition error_reporting_agent :: "string \<Rightarrow> unit agent" where
  "error_reporting_agent n =
     scripted_agent n None None (Inr (error_payload ''sensor offline'')) (Inr PNone)"

text \<open>An agent whose \<^verbatim>\<open>execute_cycle\<close> lets an exception escape.\<close>

definition raising_cycle_agent :: "string \<Rightarrow> unit agent" where
  "raising_cycle_agent n =
     scripted_agent n None None (Inl (Exc OtherException ''connection reset'')) (Inr PNone)"

text \<open>An agent whose every cycle returns the same reading.\<close>

definition reporting_agent :: "string \<Rightarrow> unit agent" where
  "reporting_agent n = scripted_agent n None None (Inr (PDict [(''aqi'', PInt 42)])) (Inr PNone)"

text \<open>
  The monitoring agent of the spec's scenario: every cycle returns
  \<^verbatim>\<open>{"pollution_alert": True}\<close>.
\<close>

definition alerting_agent :: "'x \<Rightarrow> 'x agent" where
  "alerting_agent x =
     BaseAgent ''EnvironmentalMonitoringAgent'' 300
       \<lparr>agent_setup = (\<lambda>st. (None, st)), agent_cleanup = (\<lambda>st. (None, st)),
        execute_cycle = (\<lambda>sm st. (Inr (PDict [(''pollution_alert'', PBool True)]), st)),
        process_message = (\<lambda>m st. (Inr PNone, st)),
        handle_pollution_alert = None, coordinate_pollution_response = None\<rparr> x"





text \<open>
  A community agent with a still clock, whose identifiers count in strokes and whose
  cycles find nothing to coordinate: they bind \<^verbatim>\<open>active_campaigns\<close> to a new list
  of the campaigns there are, as the clean-up of \<^verbatim>\<open>_manage_campaigns\<close> does when it
  keeps them all.
\<close>

definition example_community_env :: community_env where
  "example_community_env =
     \<lparr>campaign_clock = ''12:30'', campaign_deadline = ''12:30 a week later'',
      campaign_id_text = (\<lambda>n. ''campaign_'' @ replicate n (CHR ''I'')),
      action_id_text = (\<lambda>n. ''action_'' @ replicate n (CHR ''I'')),
      text_of = (\<lambda>v. case v of PStr t \<Rightarrow> t | _ \<Rightarrow> ''...''),
      coordination_steps =
        (\<lambda>shared st.
           case new_object (get_object (active_campaigns (attrs st)) st) st of
             (a, st1) \<Rightarrow>
               (Inr (PList [], PList [], PDict []),
                st1\<lparr>attrs := (attrs st1)\<lparr>active_campaigns := a\<rparr>\<rparr>)),
      community_process_message = (\<lambda>m st. (Inr (PDict [(''status'', PStr ''unknown_message_type'')]), st))\<rparr>"

lemmas fixture_defs =
  quiet_agent_def broken_setup_agent_def scripted_agent_def scripted_class_def BaseAgent_def
  AgentOrchestrator_def

section \<open>Properties\<close>

subsection \<open>Methods of one agent\<close>

lemma initialize_result:
  "initialize a = (r, a1) \<Longrightarrow> name a1 = name a \<and> methods a1 = methods a \<and> is_active a1"
  by (auto simp: initialize_def Let_def split: prod.splits)

lemma shutdown_result:
  "shutdown a = (r, a1) \<Longrightarrow> name a1 = name a \<and> methods a1 = methods a \<and> \<not> is_active a1"
  by (auto simp: shutdown_def Let_def split: prod.splits)

lemma handle_message_result:
  "handle_message m a = (r, a1) \<Longrightarrow>
     name a1 = name a \<and> methods a1 = methods a \<and> is_active a1 = is_active a"
  by (auto simp: handle_message_def Let_def split: prod.splits)

subsection \<open>start\<close>

lemma initialize_all_ok:
  "list_all (\<lambda>(k, a). fst (initialize a) = None) ags \<Longrightarrow>
   initialize_all ags =
     (None, map (\<lambda>(k, a). (k, snd (initialize a))) ags, map (\<lambda>(k, a). InitializeCalled k) ags)"
  by (induction ags rule: initialize_all.induct) (auto split: prod.splits option.splits)

lemma initialize_all_fail:
  "list_all (\<lambda>(k, a). fst (initialize a) = None) pre \<Longrightarrow> fst (initialize a) = Some e \<Longrightarrow>
   initialize_all (pre @ (k, a) # post) =
     (Some e, map (\<lambda>(k, a). (k, snd (initialize a))) pre @ (k, snd (initialize a)) # post,
      map (\<lambda>(k, a). InitializeCalled k) pre @ [InitializeCalled k])"
  by (induction pre rule: initialize_all.induct) (auto split: prod.splits option.splits)

text \<open>A loop that does not get through a list stops at a first element.\<close>

lemma first_failure:
  "\<not> list_all P xs \<Longrightarrow> \<exists>pre x post. xs = pre @ x # post \<and> list_all P pre \<and> \<not> P x"
proof (induction xs)
  case Nil
  then show ?case by simp
next
  case (Cons y ys)
  show ?case
  proof (cases "P y")
    case True
    with Cons obtain pre x post where "ys = pre @ x # post" "list_all P pre" "\<not> P x"
      by auto
    with True have "y # ys = (y # pre) @ x # post \<and> list_all P (y # pre) \<and> \<not> P x"
      by simp
    then show ?thesis by blast
  next
    case False
    then have "y # ys = [] @ y # ys \<and> list_all P [] \<and> \<not> P y" by simp
    then show ?thesis by blast
  qed
qed

text \<open>
  Claim C4.  \<^verbatim>\<open>start\<close> calls \<^verbatim>\<open>initialize\<close> on the registered agents one after
  the other in the order of the dict, once each, and creates the cycle tasks and the
  coordination task only after the last of these calls: when every \<^verbatim>\<open>initialize\<close>
  returns, each agent of the dict is what one call of \<^verbatim>\<open>initialize\<close> made of it
  (active, with the attributes its setup left), under its key and in its place, and the
  tasks are created after the last call.  When the \<^verbatim>\<open>initialize\<close> of an agent raises,
  after those of the agents \<open>pre\<close> before it have returned, its exception leaves
  \<^verbatim>\<open>start\<close>: the agents before it and the agent itself have been through
  \<^verbatim>\<open>initialize\<close> once, the agents \<open>post\<close> after it are as they were, and no task
  is created.
\<close>

theorem start_initializes_then_spawns:
  "(list_all (\<lambda>(k, a). fst (initialize a) = None) (agents s) \<longrightarrow>
      fst (start s) = None \<and>
      agents (snd (start s)) = map (\<lambda>(k, a). (k, snd (initialize a))) (agents s) \<and>
      trace (snd (start s)) =
        trace s @ map (\<lambda>(k, a). InitializeCalled k) (agents s)
                @ map (\<lambda>(k, a). TaskCreated (CycleTask k)) (agents s)
                @ [TaskCreated CoordinationTask, LogInfo ''All agents started successfully''] \<and>
      tasks (snd (start s)) =
        tasks s @ map (\<lambda>(k, a). (CycleTask k, Pending)) (agents s) @ [(CoordinationTask, Pending)])
   \<and> (agents s = pre @ (k, a) # post \<and>
        list_all (\<lambda>(k, a). fst (initialize a) = None) pre \<and> fst (initialize a) = Some e \<longrightarrow>
      fst (start s) = Some e \<and>
      agents (snd (start s)) =
        map (\<lambda>(k, a). (k, snd (initialize a))) pre @ (k, snd (initialize a)) # post \<and>
      trace (snd (start s)) = trace s @ map (\<lambda>(k, a). InitializeCalled k) pre @ [InitializeCalled k] \<and>
      tasks (snd (start s)) = tasks s)
   \<and> initialize b =
        (fst (agent_setup (methods b) (state b)),
         b\<lparr>is_active := True, state := snd (agent_setup (methods b) (state b))\<rparr>)"
proof (intro conjI impI)
  assume ok: "list_all (\<lambda>(k, a). fst (initialize a) = None) (agents s)"
  note r = initialize_all_ok [OF ok]
  show "fst (start s) = None"
    by (simp add: start_def r Let_def)
  show "agents (snd (start s)) = map (\<lambda>(k, a). (k, snd (initialize a))) (agents s)"
    by (simp add: start_def r Let_def emit_def)
  show "trace (snd (start s)) =
        trace s @ map (\<lambda>(k, a). InitializeCalled k) (agents s)
                @ map (\<lambda>(k, a). TaskCreated (CycleTask k)) (agents s)
                @ [TaskCreated CoordinationTask, LogInfo ''All agents started successfully'']"
    by (simp add: start_def r Let_def emit_def comp_def case_prod_unfold)
  show "tasks (snd (start s)) =
        tasks s @ map (\<lambda>(k, a). (CycleTask k, Pending)) (agents s) @ [(CoordinationTask, Pending)]"
    by (simp add: start_def r Let_def emit_def comp_def case_prod_unfold)
next
  assume h: "agents s = pre @ (k, a) # post \<and>
        list_all (\<lambda>(k, a). fst (initialize a) = None) pre \<and> fst (initialize a) = Some e"
  then have r: "initialize_all (agents s) =
     (Some e, map (\<lambda>(k, a). (k, snd (initialize a))) pre @ (k, snd (initialize a)) # post,
      map (\<lambda>(k, a). InitializeCalled k) pre @ [InitializeCalled k])"
    using initialize_all_fail [of pre a e k post] by simp
  show "fst (start s) = Some e"
    by (simp add: start_def r Let_def)
  show "agents (snd (start s)) =
        map (\<lambda>(k, a). (k, snd (initialize a))) pre @ (k, snd (initialize a)) # post"
    by (simp add: start_def r Let_def emit_def)
  show "trace (snd (start s)) = trace s @ map (\<lambda>(k, a). InitializeCalled k) pre @ [InitializeCalled k]"
    by (simp add: start_def r Let_def emit_def)
  show "tasks (snd (start s)) = tasks s"
    by (simp add: start_def r Let_def emit_def)
next
  show "initialize b =
        (fst (agent_setup (methods b) (state b)),
         b\<lparr>is_active := True, state := snd (agent_setup (methods b) (state b))\<rparr>)"
    by (simp add: initialize_def Let_def split: prod.splits)
qed

theorem start_initializes_then_spawns_witness:
  "fst (start (AgentOrchestrator [preparing_agent ''a'', preparing_agent ''b''])) = None \<and>
   map (\<lambda>(k, a). (k, is_active a, map fst (memory (state a))))
     (agents (snd (start (AgentOrchestrator [preparing_agent ''a'', preparing_agent ''b''])))) =
     [(''a'', True, [''ready'']), (''b'', True, [''ready''])] \<and>
   trace (snd (start (AgentOrchestrator [preparing_agent ''a'', preparing_agent ''b'']))) =
     [InitializeCalled ''a'', InitializeCalled ''b'',
      TaskCreated (CycleTask ''a''), TaskCreated (CycleTask ''b''),
      TaskCreated CoordinationTask, LogInfo ''All agents started successfully''] \<and>
   tasks (snd (start (AgentOrchestrator [preparing_agent ''a'', preparing_agent ''b'']))) =
     [(CycleTask ''a'', Pending), (CycleTask ''b'', Pending), (CoordinationTask, Pending)] \<and>
   fst (start (AgentOrchestrator
                 [preparing_agent ''a'', broken_setup_agent ''b'', preparing_agent ''c''])) =
     Some (Exc OtherException ''no session'') \<and>
   map (\<lambda>(k, a). (k, is_active a, map fst (memory (state a))))
     (agents (snd (start (AgentOrchestrator
                            [preparing_agent ''a'', broken_setup_agent ''b'', preparing_agent ''c''])))) =
     [(''a'', True, [''ready'']), (''b'', True, []), (''c'', False, [])] \<and>
   trace (snd (start (AgentOrchestrator
                        [preparing_agent ''a'', broken_setup_agent ''b'', preparing_agent ''c'']))) =
     [InitializeCalled ''a'', InitializeCalled ''b''] \<and>
   tasks (snd (start (AgentOrchestrator
                        [preparing_agent ''a'', broken_setup_agent ''b'', preparing_agent ''c'']))) = []"
  using start_initializes_then_spawns
          [of "AgentOrchestrator [preparing_agent ''a'', preparing_agent ''b'']"
              "[]" "''a''" "preparing_agent ''a''" "[]" "Exc OtherException ''no session''"
              "preparing_agent ''a''"]
        start_initializes_then_spawns
          [of "AgentOrchestrator [preparing_agent ''a'', broken_setup_agent ''b'', preparing_agent ''c'']"
              "[(''a'', preparing_agent ''a'')]" "''b''" "broken_setup_agent ''b''"
              "[(''c'', preparing_agent ''c'')]" "Exc OtherException ''no session''"
              "broken_setup_agent ''b''"]
  by (simp add: fixture_defs preparing_agent_def store_memory_def initialize_def)

subsection \<open>The agents dict keeps its keys, and every key is its agent's name\<close>

lemma update_same_shape:
  "map_of al k = Some a \<Longrightarrow> f a' = f a \<Longrightarrow>
   map (\<lambda>(k, a). (k, f a)) (AList.update k a' al) = map (\<lambda>(k, a). (k, f a)) al"
  by (induction al) (auto split: if_splits)

lemma shape_keys:
  "map (\<lambda>(k, a). (k, f a)) al' = map (\<lambda>(k, a). (k, f a)) al \<Longrightarrow> map fst al' = map fst al"
proof -
  assume "map (\<lambda>(k, a). (k, f a)) al' = map (\<lambda>(k, a). (k, f a)) al"
  then have "map fst (map (\<lambda>(k, a). (k, f a)) al') = map fst (map (\<lambda>(k, a). (k, f a)) al)"
    by simp
  then show ?thesis by (simp add: comp_def case_prod_unfold)
qed

lemma initialize_all_shape:
  "map (\<lambda>(k, a). (k, name a)) (fst (snd (initialize_all ags))) = map (\<lambda>(k, a). (k, name a)) ags"
  by (induction ags rule: initialize_all.induct)
     (auto split: prod.splits option.splits dest: initialize_result)

lemma shutdown_all_shape:
  "map (\<lambda>(k, a). (k, name a)) (fst (snd (shutdown_all ags))) = map (\<lambda>(k, a). (k, name a)) ags"
  by (induction ags rule: shutdown_all.induct)
     (auto split: prod.splits option.splits dest: shutdown_result)

lemma broadcast_loop_shape:
  "map (\<lambda>(k, a). (k, name a)) (fst (snd (broadcast_loop m ags res))) = map (\<lambda>(k, a). (k, name a)) ags"
  by (induction m ags res rule: broadcast_loop.induct)
     (auto split: prod.splits option.splits dest: handle_message_result)

lemma start_shape:
  "map (\<lambda>(k, a). (k, name a)) (agents (snd (start s))) = map (\<lambda>(k, a). (k, name a)) (agents s)"
  using initialize_all_shape [of "agents s"]
  by (auto simp: start_def Let_def emit_def split: prod.splits option.splits)

lemma stop_shape:
  "map (\<lambda>(k, a). (k, name a)) (agents (snd (stop s))) = map (\<lambda>(k, a). (k, name a)) (agents s)"
  using shutdown_all_shape [of "agents s"]
  by (auto simp: stop_def Let_def emit_def split: prod.splits option.splits)

lemma broadcast_shape:
  "map (\<lambda>(k, a). (k, name a)) (agents (snd (broadcast_message m s))) =
   map (\<lambda>(k, a). (k, name a)) (agents s)"
  using broadcast_loop_shape [of m "agents s" "[]"]
  by (auto simp: broadcast_message_def emit_def split: prod.splits)

lemma send_shape:
  "map (\<lambda>(k, a). (k, name a)) (agents (snd (send_message_to_agent k m s))) =
   map (\<lambda>(k, a). (k, name a)) (agents s)"
  by (auto simp: send_message_to_agent_def emit_def set_agent_def update_same_shape
           split: option.splits prod.splits dest: handle_message_result)

lemma finish_task_agents [simp]: "agents (finish_task t s) = agents s"
  by (simp add: finish_task_def)

lemma cycle_shape:
  "map (\<lambda>(k, a). (k, name a)) (agents (run_agent_iteration now k s)) =
   map (\<lambda>(k, a). (k, name a)) (agents s)"
  by (auto simp: run_agent_iteration_def Let_def emit_def set_agent_def update_same_shape
           split: option.splits prod.splits sum.splits)

lemma call_extension_shape:
  "map (\<lambda>(k, a). (k, name a)) (agents (snd (call_extension sel mn ev k arg s))) =
   map (\<lambda>(k, a). (k, name a)) (agents s)"
  by (auto simp: call_extension_def emit_def set_agent_def update_same_shape
           split: option.splits prod.splits sum.splits)

lemma check_cross_agent_actions_frame:
  assumes "\<And>sel mn ev k arg s. f (snd (call_extension sel mn ev k arg s)) = f s"
  shows "f (snd (check_cross_agent_actions s)) = f s"
proof -
  have one: "\<And>sel mn ev k arg s r s1. call_extension sel mn ev k arg s = (r, s1) \<Longrightarrow> f s1 = f s"
    using assms by (metis snd_conv)
  show ?thesis
    unfolding check_cross_agent_actions_def
    by (auto split: sum.splits prod.splits option.splits simp: assms dest!: one)
qed

lemma check_shape:
  "map (\<lambda>(k, a). (k, name a)) (agents (snd (check_cross_agent_actions s))) =
   map (\<lambda>(k, a). (k, name a)) (agents s)"
  by (rule check_cross_agent_actions_frame) (rule call_extension_shape)

lemma tick_shape:
  "map (\<lambda>(k, a). (k, name a)) (agents (coordinate_agents_iteration now1 now2 s)) =
   map (\<lambda>(k, a). (k, name a)) (agents s)"
  using check_shape [of s]
  by (auto simp: coordinate_agents_iteration_def emit_def update_global_state_def
           split: prod.splits option.splits)

lemma step_shape:
  "map (\<lambda>(k, a). (k, name a)) (agents (step oper s)) = map (\<lambda>(k, a). (k, name a)) (agents s)"
  by (cases oper) (simp_all add: start_shape stop_shape cycle_shape tick_shape send_shape broadcast_shape)

lemma constructor_shape:
  "distinct (map fst d0) \<Longrightarrow> distinct (map fst (foldl (\<lambda>d a. AList.update (name a) a d) d0 ags))"
  by (induction ags arbitrary: d0) (simp_all add: distinct_update)

lemma constructor_names:
  "list_all (\<lambda>(k, a). name a = k) d0 \<Longrightarrow>
   list_all (\<lambda>(k, a). name a = k) (foldl (\<lambda>d a. AList.update (name a) a d) d0 ags)"
proof (induction ags arbitrary: d0)
  case Nil
  then show ?case by simp
next
  case (Cons a ags)
  have "list_all (\<lambda>(k, a). name a = k) (AList.update (name a) a d0)"
    using Cons.prems by (induction d0) auto
  then show ?case using Cons.IH by simp
qed

lemma reachable_shape:
  "reachable ags s \<Longrightarrow>
   map (\<lambda>(k, a). (k, name a)) (agents s) =
   map (\<lambda>(k, a). (k, name a)) (agents (AgentOrchestrator ags))"
  by (induction rule: reachable.induct) (simp_all add: step_shape)

lemma reachable_keys_distinct: "reachable ags s \<Longrightarrow> distinct (map fst (agents s))"
proof -
  assume "reachable ags s"
  then have "map fst (agents s) = map fst (agents (AgentOrchestrator ags))"
    by (rule shape_keys [OF reachable_shape])
  then show ?thesis
    by (simp add: AgentOrchestrator_def constructor_shape)
qed

lemma reachable_key_is_name:
  assumes "reachable ags s" and "map_of (agents s) k = Some a"
  shows "name a = k"
proof -
  have "list_all (\<lambda>(k, a). name a = k) (agents (AgentOrchestrator ags))"
    by (simp add: AgentOrchestrator_def constructor_names)
  then have "list_all (\<lambda>(k, n). n = k) (map (\<lambda>(k, a). (k, name a)) (agents (AgentOrchestrator ags)))"
    by (simp add: list_all_iff case_prod_unfold)
  then have "list_all (\<lambda>(k, n). n = k) (map (\<lambda>(k, a). (k, name a)) (agents s))"
    using reachable_shape [OF assms(1)] by simp
  then have "list_all (\<lambda>(k, a). name a = k) (agents s)"
    by (simp add: list_all_iff case_prod_unfold)
  moreover have "(k, a) \<in> set (agents s)"
    using assms(2) by (rule map_of_SomeD)
  ultimately show ?thesis by (auto simp: list_all_iff)
qed

subsection \<open>The running flag and the activity flags after start\<close>

text \<open>
  Claim C5, as the code has it.  \<^verbatim>\<open>start\<close> sets the running flag in its first
  statement, before any agent is initialized, and no later statement of \<^verbatim>\<open>start\<close>
  clears it: \<^verbatim>\<open>is_running\<close> answers true after every call of \<^verbatim>\<open>start\<close>, whether
  it returned or an \<^verbatim>\<open>initialize\<close> raised, and the agents list handed to the
  first loop is that of a running orchestrator.
\<close>

theorem start_sets_running_first:
  "is_running (snd (start s)) \<and>
   (agents s = pre @ (k, a) # post \<and>
      list_all (\<lambda>(k, a). fst (initialize a) = None) pre \<and> fst (initialize a) = Some e \<longrightarrow>
    fst (start s) = Some e \<and> tasks (snd (start s)) = tasks s \<and> is_running (snd (start s)))"
proof (intro conjI impI)
  show r: "is_running (snd (start s))"
    by (auto simp: start_def is_running_def Let_def emit_def split: prod.splits option.splits)
  assume h: "agents s = pre @ (k, a) # post \<and>
      list_all (\<lambda>(k, a). fst (initialize a) = None) pre \<and> fst (initialize a) = Some e"
  then have "initialize_all (agents s) =
     (Some e, map (\<lambda>(k, a). (k, snd (initialize a))) pre @ (k, snd (initialize a)) # post,
      map (\<lambda>(k, a). InitializeCalled k) pre @ [InitializeCalled k])"
    using initialize_all_fail [of pre a e k post] by simp
  then show "fst (start s) = Some e" "tasks (snd (start s)) = tasks s"
    by (simp_all add: start_def Let_def emit_def)
  show "is_running (snd (start s))" by (rule r)
qed

theorem start_sets_running_first_witness:
  "is_running (snd (start (AgentOrchestrator [quiet_agent ''a'', broken_setup_agent ''b''])))  \<and>
   fst (start (AgentOrchestrator [quiet_agent ''a'', broken_setup_agent ''b''])) =
     Some (Exc OtherException ''no session'') \<and>
   tasks (snd (start (AgentOrchestrator [quiet_agent ''a'', broken_setup_agent ''b'']))) = []"
  using start_sets_running_first
          [of "AgentOrchestrator [quiet_agent ''a'', broken_setup_agent ''b'']"
              "[(''a'', quiet_agent ''a'')]" "''b''" "broken_setup_agent ''b''" "[]"
              "Exc OtherException ''no session''"]
  by (simp add: fixture_defs initialize_def)

text \<open>
  The claim as the spec states it fails: an orchestrator whose only agent cannot be set
  up is running after the failed \<^verbatim>\<open>start\<close>.
\<close>

theorem start_running_flag_counterexample:
  "fst (start (AgentOrchestrator [broken_setup_agent ''a''])) = Some (Exc OtherException ''no session'') \<and>
   tasks (snd (start (AgentOrchestrator [broken_setup_agent ''a'']))) = [] \<and>
   is_running (snd (start (AgentOrchestrator [broken_setup_agent ''a''])))"
  by (simp add: fixture_defs start_def initialize_def is_running_def emit_def)

text \<open>
  Claim C10.  \<^verbatim>\<open>initialize\<close> sets the activity flag before it runs the setup of
  the subclass, so an agent whose setup raises is left active while the exception
  leaves \<^verbatim>\<open>initialize\<close>.  After a \<^verbatim>\<open>start\<close> that failed at the agent under key
  \<open>k\<close>, that agent and the agents \<open>pre\<close> before it are active, \<^verbatim>\<open>get_status\<close>
  reports each of them active, the agents \<open>post\<close> after it are untouched, and the
  count \<^verbatim>\<open>agents_running\<close> of \<^verbatim>\<open>_update_global_state\<close> includes them.
\<close>

theorem failed_start_leaves_agents_active:
  "(fst (agent_setup (methods a) (state a)) = Some e \<longrightarrow>
      fst (initialize a) = Some e \<and> is_active (snd (initialize a)))
   \<and> (agents s = pre @ (k, a) # post \<and>
        list_all (\<lambda>(k, a). fst (initialize a) = None) pre \<and> fst (initialize a) = Some e \<longrightarrow>
      fst (start s) = Some e \<and>
      agents (snd (start s)) =
        map (\<lambda>(k, a). (k, snd (initialize a))) pre @ (k, snd (initialize a)) # post \<and>
      list_all (\<lambda>(k, a). is_active a \<and> py_get (status_entry a) ''active'' PNone = Inr (PBool True))
        (map (\<lambda>(k, a). (k, snd (initialize a))) pre @ [(k, snd (initialize a))]) \<and>
      py_get (system_entry now1 now2 (agents (snd (start s)))) ''agents_running'' PNone =
        Inr (PInt (int (Suc (length pre) + length (filter (\<lambda>(k, a). is_active a) post)))))"
proof (intro conjI impI)
  assume "fst (agent_setup (methods a) (state a)) = Some e"
  then show "fst (initialize a) = Some e" "is_active (snd (initialize a))"
    by (auto simp: initialize_def Let_def split: prod.splits)
next
  assume h: "agents s = pre @ (k, a) # post \<and>
        list_all (\<lambda>(k, a). fst (initialize a) = None) pre \<and> fst (initialize a) = Some e"
  then have r: "initialize_all (agents s) =
     (Some e, map (\<lambda>(k, a). (k, snd (initialize a))) pre @ (k, snd (initialize a)) # post,
      map (\<lambda>(k, a). InitializeCalled k) pre @ [InitializeCalled k])"
    using initialize_all_fail [of pre a e k post] by simp
  have act: "\<And>b. is_active (snd (initialize b))"
    by (simp add: initialize_def Let_def split: prod.splits)
  show "fst (start s) = Some e"
    by (simp add: start_def r Let_def)
  show ags: "agents (snd (start s)) =
        map (\<lambda>(k, a). (k, snd (initialize a))) pre @ (k, snd (initialize a)) # post"
    by (simp add: start_def r Let_def emit_def)
  show "list_all (\<lambda>(k, a). is_active a \<and> py_get (status_entry a) ''active'' PNone = Inr (PBool True))
        (map (\<lambda>(k, a). (k, snd (initialize a))) pre @ [(k, snd (initialize a))])"
    by (simp add: list_all_iff act status_entry_def case_prod_unfold)
  have "filter (\<lambda>(k, a). is_active a) (map (\<lambda>(k, a). (k, snd (initialize a))) pre) =
        map (\<lambda>(k, a). (k, snd (initialize a))) pre"
    by (simp add: filter_id_conv act case_prod_unfold)
  then have "length (filter (\<lambda>(k, a). is_active a) (map (\<lambda>(k, a). (k, snd (initialize a))) pre)) = length pre"
    by simp
  then show "py_get (system_entry now1 now2 (agents (snd (start s)))) ''agents_running'' PNone =
        Inr (PInt (int (Suc (length pre) + length (filter (\<lambda>(k, a). is_active a) post))))"
    by (simp add: ags system_entry_def act)
qed

theorem failed_start_leaves_agents_active_witness:
  "fst (initialize (broken_setup_agent ''b'')) = Some (Exc OtherException ''no session'') \<and>
   is_active (snd (initialize (broken_setup_agent ''b''))) \<and>
   fst (start (AgentOrchestrator [quiet_agent ''a'', broken_setup_agent ''b'', quiet_agent ''c''])) =
     Some (Exc OtherException ''no session'') \<and>
   map (\<lambda>(k, a). (k, is_active a))
     (agents (snd (start (AgentOrchestrator
        [quiet_agent ''a'', broken_setup_agent ''b'', quiet_agent ''c''])))) =
     [(''a'', True), (''b'', True), (''c'', False)] \<and>
   py_get (system_entry ''t1'' ''t2''
      (agents (snd (start (AgentOrchestrator
        [quiet_agent ''a'', broken_setup_agent ''b'', quiet_agent ''c''])))))
     ''agents_running'' PNone = Inr (PInt 2)"
  using failed_start_leaves_agents_active
          [of "broken_setup_agent ''b''" "Exc OtherException ''no session''"
              "AgentOrchestrator [quiet_agent ''a'', broken_setup_agent ''b'', quiet_agent ''c'']"
              "[(''a'', quiet_agent ''a'')]" "''b''" "[(''c'', quiet_agent ''c'')]" "''t1''" "''t2''"]
  by (simp add: fixture_defs initialize_def start_def emit_def system_entry_def)

subsection \<open>stop\<close>

lemma shutdown_all_ok:
  "list_all (\<lambda>(k, a). fst (shutdown a) = None) ags \<Longrightarrow>
   shutdown_all ags =
     (None, map (\<lambda>(k, a). (k, snd (shutdown a))) ags, map (\<lambda>(k, a). ShutdownCalled k) ags)"
  by (induction ags rule: shutdown_all.induct) (auto split: prod.splits option.splits)

lemma shutdown_all_fail:
  "list_all (\<lambda>(k, a). fst (shutdown a) = None) pre \<Longrightarrow> fst (shutdown a) = Some e \<Longrightarrow>
   shutdown_all (pre @ (k, a) # post) =
     (Some e, map (\<lambda>(k, a). (k, snd (shutdown a))) pre @ (k, snd (shutdown a)) # post,
      map (\<lambda>(k, a). ShutdownCalled k) pre @ [ShutdownCalled k])"
  by (induction pre rule: shutdown_all.induct) (auto split: prod.splits option.splits)

lemma shutdown_inactive: "\<not> is_active (snd (shutdown a))"
  by (simp add: shutdown_def Let_def split: prod.splits)

text \<open>
  Claim C2, as the code has it.  \<^verbatim>\<open>stop\<close> clears the running flag, requests the
  cancellation of every task and calls \<^verbatim>\<open>shutdown\<close> on the registered agents one
  after the other in the order of the dict.  When no \<^verbatim>\<open>shutdown\<close> raises, every
  agent is shut down and inactive and \<^verbatim>\<open>stop\<close> returns.  The loop has no handler:
  when the \<^verbatim>\<open>shutdown\<close> of the agent under key \<open>k\<close> raises, its exception leaves
  \<^verbatim>\<open>stop\<close> and \<^verbatim>\<open>shutdown\<close> is not called on the agents \<open>post\<close> after it.
\<close>

theorem stop_shuts_down_until_first_failure:
  "(list_all (\<lambda>(k, a). fst (shutdown a) = None) (agents s) \<longrightarrow>
      fst (stop s) = None \<and>
      agents (snd (stop s)) = map (\<lambda>(k, a). (k, snd (shutdown a))) (agents s) \<and>
      list_all (\<lambda>(k, a). \<not> is_active a) (agents (snd (stop s))) \<and>
      trace (snd (stop s)) =
        trace s @ map (\<lambda>(t, st). CancelRequested t) (tasks s)
                @ map (\<lambda>(k, a). ShutdownCalled k) (agents s) @ [LogInfo ''All agents stopped''])
   \<and> (agents s = pre @ (k, a) # post \<and>
        list_all (\<lambda>(k, a). fst (shutdown a) = None) pre \<and> fst (shutdown a) = Some e \<longrightarrow>
      fst (stop s) = Some e \<and>
      agents (snd (stop s)) =
        map (\<lambda>(k, a). (k, snd (shutdown a))) pre @ (k, snd (shutdown a)) # post \<and>
      trace (snd (stop s)) =
        trace s @ map (\<lambda>(t, st). CancelRequested t) (tasks s)
                @ map (\<lambda>(k, a). ShutdownCalled k) pre @ [ShutdownCalled k])
   \<and> \<not> is_running (snd (stop s))
   \<and> tasks (snd (stop s)) = map (\<lambda>(t, st). (t, cancel st)) (tasks s)"
proof (intro conjI impI)
  assume ok: "list_all (\<lambda>(k, a). fst (shutdown a) = None) (agents s)"
  note r = shutdown_all_ok [OF ok]
  show "fst (stop s) = None"
    by (simp add: stop_def r Let_def emit_def)
  show ags: "agents (snd (stop s)) = map (\<lambda>(k, a). (k, snd (shutdown a))) (agents s)"
    by (simp add: stop_def r Let_def emit_def)
  show "list_all (\<lambda>(k, a). \<not> is_active a) (agents (snd (stop s)))"
    by (simp add: ags list_all_iff shutdown_inactive case_prod_unfold)
  show "trace (snd (stop s)) =
        trace s @ map (\<lambda>(t, st). CancelRequested t) (tasks s)
                @ map (\<lambda>(k, a). ShutdownCalled k) (agents s) @ [LogInfo ''All agents stopped'']"
    by (simp add: stop_def r Let_def emit_def)
next
  assume h: "agents s = pre @ (k, a) # post \<and>
        list_all (\<lambda>(k, a). fst (shutdown a) = None) pre \<and> fst (shutdown a) = Some e"
  then have r: "shutdown_all (agents s) =
     (Some e, map (\<lambda>(k, a). (k, snd (shutdown a))) pre @ (k, snd (shutdown a)) # post,
      map (\<lambda>(k, a). ShutdownCalled k) pre @ [ShutdownCalled k])"
    using shutdown_all_fail [of pre a e k post] by simp
  show "fst (stop s) = Some e"
    by (simp add: stop_def r Let_def emit_def)
  show "agents (snd (stop s)) =
        map (\<lambda>(k, a). (k, snd (shutdown a))) pre @ (k, snd (shutdown a)) # post"
    by (simp add: stop_def r Let_def emit_def)
  show "trace (snd (stop s)) =
        trace s @ map (\<lambda>(t, st). CancelRequested t) (tasks s)
                @ map (\<lambda>(k, a). ShutdownCalled k) pre @ [ShutdownCalled k]"
    by (simp add: stop_def r Let_def emit_def)
next
  show "\<not> is_running (snd (stop s))"
    by (auto simp: stop_def is_running_def Let_def emit_def split: prod.splits option.splits)
  show "tasks (snd (stop s)) = map (\<lambda>(t, st). (t, cancel st)) (tasks s)"
    by (auto simp: stop_def Let_def emit_def split: prod.splits option.splits)
qed

theorem stop_shuts_down_until_first_failure_witness:
  "fst (stop (snd (start (AgentOrchestrator [quiet_agent ''a'', quiet_agent ''b''])))) = None \<and>
   map (\<lambda>(k, a). (k, is_active a))
     (agents (snd (stop (snd (start (AgentOrchestrator [quiet_agent ''a'', quiet_agent ''b'']))))))
     = [(''a'', False), (''b'', False)] \<and>
   fst (stop (snd (start (AgentOrchestrator
     [quiet_agent ''a'', broken_cleanup_agent ''b'', quiet_agent ''c''])))) =
     Some (Exc OtherException ''session is closed'') \<and>
   map (\<lambda>(k, a). (k, is_active a))
     (agents (snd (stop (snd (start (AgentOrchestrator
        [quiet_agent ''a'', broken_cleanup_agent ''b'', quiet_agent ''c'']))))))
     = [(''a'', False), (''b'', False), (''c'', True)]"
  using stop_shuts_down_until_first_failure
          [of "snd (start (AgentOrchestrator [quiet_agent ''a'', quiet_agent ''b'']))"]
        stop_shuts_down_until_first_failure
          [of "snd (start (AgentOrchestrator
                 [quiet_agent ''a'', broken_cleanup_agent ''b'', quiet_agent ''c'']))"
              "[(''a'', snd (initialize (quiet_agent ''a'')))]" "''b''"
              "snd (initialize (broken_cleanup_agent ''b''))"
              "[(''c'', snd (initialize (quiet_agent ''c'')))]"
              "Exc OtherException ''session is closed''"]
  by (simp add: fixture_defs broken_cleanup_agent_def initialize_def shutdown_def start_def stop_def
        emit_def)

text \<open>
  The claim as the spec states it fails.  Of two started agents the first cannot be
  cleaned up: \<^verbatim>\<open>stop\<close> raises, and the second agent is never shut down and stays
  active.
\<close>

theorem stop_aborts_on_shutdown_fault_counterexample:
  "fst (stop (snd (start (AgentOrchestrator [broken_cleanup_agent ''a'', quiet_agent ''b''])))) =
     Some (Exc OtherException ''session is closed'') \<and>
   ShutdownCalled ''b'' \<notin>
     set (trace (snd (stop (snd (start (AgentOrchestrator
            [broken_cleanup_agent ''a'', quiet_agent ''b'']))))))  \<and>
   map (\<lambda>(k, a). (k, is_active a))
     (agents (snd (stop (snd (start (AgentOrchestrator
        [broken_cleanup_agent ''a'', quiet_agent ''b'']))))))
     = [(''a'', False), (''b'', True)]"
  by (simp add: fixture_defs broken_cleanup_agent_def initialize_def shutdown_def start_def stop_def
        emit_def)

subsection \<open>broadcast\_message\<close>

lemma update_new_key: "k \<notin> fst ` set al \<Longrightarrow> AList.update k v al = al @ [(k, v)]"
  by (induction al) auto

lemma broadcast_loop_results:
  "distinct (map fst ags) \<Longrightarrow> fst ` set ags \<inter> fst ` set res = {} \<Longrightarrow>
   fst (broadcast_loop m ags res) =
     res @ map (\<lambda>(k, a). (k, case fst (handle_message m a) of
                                Inr v \<Rightarrow> v | Inl e \<Rightarrow> PStr (''Error: '' @ str_exn e))) ags"
proof (induction m ags res rule: broadcast_loop.induct)
  case (1 message results)
  then show ?case by simp
next
  case (2 message k a rest results)
  obtain r a1 where h: "handle_message message a = (r, a1)"
    by (cases "handle_message message a")
  let ?entry = "case r of Inr v \<Rightarrow> v | Inl e \<Rightarrow> PStr (''Error: '' @ str_exn e)"
  have fresh: "k \<notin> fst ` set results"
    using "2.prems"(2) by auto
  then have upd: "AList.update k ?entry results = results @ [(k, ?entry)]"
    by (rule update_new_key)
  have "fst ` set rest \<inter> fst ` set (AList.update k ?entry results) = {}"
    using "2.prems" by (auto simp: upd)
  moreover have "distinct (map fst rest)"
    using "2.prems"(1) by simp
  ultimately have "fst (broadcast_loop message rest (AList.update k ?entry results)) =
     AList.update k ?entry results @
       map (\<lambda>(k, a). (k, case fst (handle_message message a) of
                          Inr v \<Rightarrow> v | Inl e \<Rightarrow> PStr (''Error: '' @ str_exn e))) rest"
    using "2.IH" [OF h [symmetric]] by simp
  then show ?case
    by (auto simp: h upd split: prod.splits)
qed

lemma broadcast_loop_events:
  "snd (snd (broadcast_loop m ags res)) = map (\<lambda>(k, a). HandleMessageCalled k) ags"
  by (induction m ags res rule: broadcast_loop.induct) (auto split: prod.splits)

text \<open>
  Claim C9.  In every state of an orchestrator, \<^verbatim>\<open>broadcast_message\<close> calls the
  handler of every registered agent, in the order of the dict, and returns a dict with
  one entry per registered agent under the agent's key: the response of the agent's
  \<^verbatim>\<open>handle_message\<close> when it returned, and the string \<^verbatim>\<open>Error: \<close> followed by
  the exception's text when it raised.  So when the handler of exactly one agent
  raises, that agent's entry is the error string and every other entry is the response
  of its agent.
\<close>

theorem broadcast_collects_every_agent:
  assumes "reachable ags s"
  shows "fst (broadcast_message m s) =
           map (\<lambda>(k, a). (k, case fst (handle_message m a) of
                               Inr v \<Rightarrow> v | Inl e \<Rightarrow> PStr (''Error: '' @ str_exn e))) (agents s)
         \<and> length (fst (broadcast_message m s)) = length (agents s)
         \<and> distinct (map fst (fst (broadcast_message m s)))
         \<and> trace (snd (broadcast_message m s)) =
             trace s @ map (\<lambda>(k, a). HandleMessageCalled k) (agents s)
         \<and> (agents s = pre @ (k, a) # post \<and> fst (handle_message m a) = Inl e \<and>
              list_all (\<lambda>(k, a). \<exists>v. fst (handle_message m a) = Inr v) (pre @ post) \<longrightarrow>
            fst (broadcast_message m s) =
              map (\<lambda>(k, a). (k, projr (fst (handle_message m a)))) pre
              @ (k, PStr (''Error: '' @ str_exn e))
              # map (\<lambda>(k, a). (k, projr (fst (handle_message m a)))) post)"
proof -
  have d: "distinct (map fst (agents s))"
    using assms by (rule reachable_keys_distinct)
  have res: "fst (broadcast_message m s) =
           map (\<lambda>(k, a). (k, case fst (handle_message m a) of
                               Inr v \<Rightarrow> v | Inl e \<Rightarrow> PStr (''Error: '' @ str_exn e))) (agents s)"
    using broadcast_loop_results [of "agents s" "[]" m] d
    by (auto simp: broadcast_message_def split: prod.splits)
  have keys: "map fst (fst (broadcast_message m s)) = map fst (agents s)"
    by (simp add: res comp_def case_prod_unfold)
  have tr: "trace (snd (broadcast_message m s)) =
             trace s @ map (\<lambda>(k, a). HandleMessageCalled k) (agents s)"
    using broadcast_loop_events [of m "agents s" "[]"]
    by (auto simp: broadcast_message_def emit_def split: prod.splits)
  have one: "fst (broadcast_message m s) =
              map (\<lambda>(k, a). (k, projr (fst (handle_message m a)))) pre
              @ (k, PStr (''Error: '' @ str_exn e))
              # map (\<lambda>(k, a). (k, projr (fst (handle_message m a)))) post"
    if h: "agents s = pre @ (k, a) # post \<and> fst (handle_message m a) = Inl e \<and>
              list_all (\<lambda>(k, a). \<exists>v. fst (handle_message m a) = Inr v) (pre @ post)"
  proof -
    have conv: "\<And>xs. list_all (\<lambda>(k, a). \<exists>v. fst (handle_message m a) = Inr v) xs \<Longrightarrow>
       map (\<lambda>(k, a). (k, case fst (handle_message m a) of
                               Inr v \<Rightarrow> v | Inl e \<Rightarrow> PStr (''Error: '' @ str_exn e))) xs =
       map (\<lambda>(k, a). (k, projr (fst (handle_message m a)))) xs"
      by (auto simp: list_all_iff)
    have p1: "map (\<lambda>(k, a). (k, case fst (handle_message m a) of
                               Inr v \<Rightarrow> v | Inl e \<Rightarrow> PStr (''Error: '' @ str_exn e))) pre =
       map (\<lambda>(k, a). (k, projr (fst (handle_message m a)))) pre"
      using h by (intro conv) simp
    have p2: "map (\<lambda>(k, a). (k, case fst (handle_message m a) of
                               Inr v \<Rightarrow> v | Inl e \<Rightarrow> PStr (''Error: '' @ str_exn e))) post =
       map (\<lambda>(k, a). (k, projr (fst (handle_message m a)))) post"
      using h by (intro conv) simp
    have "fst (broadcast_message m s) =
       map (\<lambda>(k, a). (k, case fst (handle_message m a) of
                               Inr v \<Rightarrow> v | Inl e \<Rightarrow> PStr (''Error: '' @ str_exn e))) pre
       @ (k, PStr (''Error: '' @ str_exn e))
       # map (\<lambda>(k, a). (k, case fst (handle_message m a) of
                               Inr v \<Rightarrow> v | Inl e \<Rightarrow> PStr (''Error: '' @ str_exn e))) post"
      using h by (simp add: res)
    then show ?thesis by (simp only: p1 p2)
  qed
  have len: "length (fst (broadcast_message m s)) = length (agents s)"
    by (simp add: res)
  have dist: "distinct (map fst (fst (broadcast_message m s)))"
    by (simp only: keys d)
  from res len dist tr one show ?thesis
    by (intro conjI impI)
qed

theorem broadcast_collects_every_agent_witness:
  "reachable
     [answering_agent ''a'' (PStr ''pong''), broken_handler_agent ''b'', answering_agent ''c'' (PInt 3)]
     (AgentOrchestrator
        [answering_agent ''a'' (PStr ''pong''), broken_handler_agent ''b'', answering_agent ''c'' (PInt 3)])
   \<and> fst (broadcast_message (PDict [(''type'', PStr ''ping'')])
        (AgentOrchestrator
           [answering_agent ''a'' (PStr ''pong''), broken_handler_agent ''b'',
            answering_agent ''c'' (PInt 3)])) =
     [(''a'', PStr ''pong''), (''b'', PStr ''Error: id''), (''c'', PInt 3)]"
  using broadcast_collects_every_agent
          [OF reachable_init,
           of "PDict [(''type'', PStr ''ping'')]"
              "[answering_agent ''a'' (PStr ''pong''), broken_handler_agent ''b'',
                answering_agent ''c'' (PInt 3)]"
              "[(''a'', answering_agent ''a'' (PStr ''pong''))]" "''b''" "broken_handler_agent ''b''"
              "[(''c'', answering_agent ''c'' (PInt 3))]" "Exc KeyError ''id''"]
        reachable_init
          [of "[answering_agent ''a'' (PStr ''pong''), broken_handler_agent ''b'',
                answering_agent ''c'' (PInt 3)]"]
  by (simp add: fixture_defs answering_agent_def broken_handler_agent_def handle_message_def)

subsection \<open>What each operation leaves alone\<close>

lemma emit_fields [simp]:
  "agents (emit evs s) = agents s" "running (emit evs s) = running s"
  "tasks (emit evs s) = tasks s" "shared_memory (emit evs s) = shared_memory s"
  "trace (emit evs s) = trace s @ evs"
  by (simp_all add: emit_def)

lemma set_agent_fields [simp]:
  "agents (set_agent k a s) = AList.update k a (agents s)" "running (set_agent k a s) = running s"
  "tasks (set_agent k a s) = tasks s" "shared_memory (set_agent k a s) = shared_memory s"
  "trace (set_agent k a s) = trace s"
  by (simp_all add: set_agent_def)

lemma finish_task_fields [simp]:
  "running (finish_task t s) = running s"
  "shared_memory (finish_task t s) = shared_memory s" "trace (finish_task t s) = trace s"
  by (simp_all add: finish_task_def)

lemma finish_task_keys: "map fst (tasks (finish_task t s)) = map fst (tasks s)"
  by (simp add: finish_task_def comp_def case_prod_unfold if_distrib [of fst])

lemma finish_task_key_set [simp]: "fst ` set (tasks (finish_task t s)) = fst ` set (tasks s)"
  using finish_task_keys [of t s] by (metis set_map)

lemma call_extension_fields:
  "running (snd (call_extension sel mn ev k arg s)) = running s"
  "tasks (snd (call_extension sel mn ev k arg s)) = tasks s"
  "shared_memory (snd (call_extension sel mn ev k arg s)) = shared_memory s"
  by (auto simp: call_extension_def split: option.splits prod.splits)

lemma check_cross_agent_actions_fields:
  "running (snd (check_cross_agent_actions s)) = running s"
  "tasks (snd (check_cross_agent_actions s)) = tasks s"
  "shared_memory (snd (check_cross_agent_actions s)) = shared_memory s"
  by (rule check_cross_agent_actions_frame, rule call_extension_fields)+

lemma start_cases:
  obtains (returned) ags' evs where "initialize_all (agents s) = (None, ags', evs)"
      "start s = (None, emit [LogInfo ''All agents started successfully'']
                  (emit [TaskCreated CoordinationTask]
                    (emit (map TaskCreated (map (\<lambda>(k, a). CycleTask k) ags'))
                      (emit evs (s\<lparr>running := True, agents := ags'\<rparr>)
                         \<lparr>tasks := tasks s @ map (\<lambda>t. (t, Pending)) (map (\<lambda>(k, a). CycleTask k) ags')\<rparr>)
                       \<lparr>tasks := (tasks s @ map (\<lambda>t. (t, Pending)) (map (\<lambda>(k, a). CycleTask k) ags'))
                                  @ [(CoordinationTask, Pending)]\<rparr>)))"
  | (raised) e ags' evs where "initialize_all (agents s) = (Some e, ags', evs)"
      "start s = (Some e, emit evs (s\<lparr>running := True, agents := ags'\<rparr>))"
proof -
  obtain r ags' evs where i: "initialize_all (agents s) = (r, ags', evs)"
    by (cases "initialize_all (agents s)")
  show ?thesis
  proof (cases r)
    case None
    show ?thesis
      by (rule returned [of ags' evs]) (simp_all add: start_def i None Let_def emit_def)
  next
    case (Some e)
    show ?thesis
      by (rule raised [of e ags' evs]) (simp_all add: start_def i Some Let_def emit_def)
  qed
qed

lemma start_fields:
  "running (snd (start s))"
  "shared_memory (snd (start s)) = shared_memory s"
  "\<exists>new. tasks (snd (start s)) = tasks s @ new \<and>
         fst ` set new \<subseteq> insert CoordinationTask (CycleTask ` fst ` set (agents s))"
proof -
  show "running (snd (start s))" "shared_memory (snd (start s)) = shared_memory s"
    by (cases s rule: start_cases; simp)+
  show "\<exists>new. tasks (snd (start s)) = tasks s @ new \<and>
         fst ` set new \<subseteq> insert CoordinationTask (CycleTask ` fst ` set (agents s))"
  proof (cases s rule: start_cases)
    case (returned ags' evs)
    have "map fst ags' = map fst (agents s)"
      using initialize_all_shape [of "agents s"] returned(1) by (auto dest: shape_keys)
    then have k: "fst ` set ags' = fst ` set (agents s)"
      by (metis set_map)
    have t: "tasks (snd (start s)) =
        tasks s @ (map (\<lambda>(k, a). (CycleTask k, Pending)) ags' @ [(CoordinationTask, Pending)])"
      by (simp add: returned(2) comp_def case_prod_unfold)
    have "fst ` set (map (\<lambda>(k, a). (CycleTask k, Pending)) ags' @ [(CoordinationTask, Pending)])
        = insert CoordinationTask (CycleTask ` fst ` set ags')"
      by (simp add: image_image case_prod_unfold image_Un)
    then have "fst ` set (map (\<lambda>(k, a). (CycleTask k, Pending)) ags' @ [(CoordinationTask, Pending)])
        \<subseteq> insert CoordinationTask (CycleTask ` fst ` set (agents s))"
      by (simp only: k subset_refl)
    with t show ?thesis by blast
  next
    case (raised e ags' evs)
    then have "tasks (snd (start s)) = tasks s @ [] \<and>
       fst ` set ([] :: (task \<times> task_status) list) \<subseteq>
         insert CoordinationTask (CycleTask ` fst ` set (agents s))"
      by simp
    then show ?thesis by blast
  qed
qed

lemma stop_cases:
  obtains (returned) ags' evs where
      "shutdown_all (agents s) = (None, ags', evs)"
      "stop s = (None, emit [LogInfo ''All agents stopped'']
                  (emit evs (emit (map (\<lambda>(t, st). CancelRequested t) (tasks s))
                     (s\<lparr>running := False, tasks := map (\<lambda>(t, st). (t, cancel st)) (tasks s)\<rparr>)
                     \<lparr>agents := ags'\<rparr>)))"
  | (raised) e ags' evs where
      "shutdown_all (agents s) = (Some e, ags', evs)"
      "stop s = (Some e, emit evs (emit (map (\<lambda>(t, st). CancelRequested t) (tasks s))
                     (s\<lparr>running := False, tasks := map (\<lambda>(t, st). (t, cancel st)) (tasks s)\<rparr>)
                     \<lparr>agents := ags'\<rparr>))"
proof -
  obtain r ags' evs where i: "shutdown_all (agents s) = (r, ags', evs)"
    by (cases "shutdown_all (agents s)")
  show ?thesis
  proof (cases r)
    case None
    show ?thesis
      by (rule returned [of ags' evs]) (simp_all add: stop_def i None Let_def emit_def)
  next
    case (Some e)
    show ?thesis
      by (rule raised [of e ags' evs]) (simp_all add: stop_def i Some Let_def emit_def)
  qed
qed

lemma stop_fields:
  "\<not> running (snd (stop s))"
  "shared_memory (snd (stop s)) = shared_memory s"
  "tasks (snd (stop s)) = map (\<lambda>(t, st). (t, cancel st)) (tasks s)"
  by (cases s rule: stop_cases; simp)+

lemma cancel_not_pending: "cancel st \<noteq> Pending" "Pending \<noteq> cancel st"
  by (cases st; simp)+

lemma stop_task_keys: "fst ` set (tasks (snd (stop s))) = fst ` set (tasks s)"
proof -
  have "map fst (tasks (snd (stop s))) = map fst (tasks s)"
    by (simp add: stop_fields comp_def case_prod_unfold)
  then show ?thesis by (metis set_map)
qed

lemma start_task_keys:
  "fst ` set (tasks (snd (start s))) \<subseteq>
     fst ` set (tasks s) \<union> insert CoordinationTask (CycleTask ` fst ` set (agents s))"
proof -
  obtain new where n: "tasks (snd (start s)) = tasks s @ new"
    "fst ` set new \<subseteq> insert CoordinationTask (CycleTask ` fst ` set (agents s))"
    using start_fields(3) [of s] by blast
  have "fst ` set (tasks (snd (start s))) = fst ` set (tasks s) \<union> fst ` set new"
    by (simp add: n(1) image_Un)
  then show ?thesis using n(2) by blast
qed

lemma run_agent_iteration_fields:
  "running (run_agent_iteration now k s) = running s"
  "running s \<Longrightarrow> tasks (run_agent_iteration now k s) = tasks s"
  "fst ` set (tasks (run_agent_iteration now k s)) = fst ` set (tasks s)"
  by (simp_all add: run_agent_iteration_def Let_def
           split: option.splits prod.splits sum.splits)

lemma coordinate_agents_iteration_fields:
  "running (coordinate_agents_iteration now1 now2 s) = running s"
  "running s \<Longrightarrow> tasks (coordinate_agents_iteration now1 now2 s) = tasks s"
  "fst ` set (tasks (coordinate_agents_iteration now1 now2 s)) = fst ` set (tasks s)"
proof -
  obtain r s1 where c: "check_cross_agent_actions s = (r, s1)"
    by (cases "check_cross_agent_actions s")
  then have s1: "running s1 = running s" "tasks s1 = tasks s"
    using check_cross_agent_actions_fields [of s] by simp_all
  show "running (coordinate_agents_iteration now1 now2 s) = running s"
    "running s \<Longrightarrow> tasks (coordinate_agents_iteration now1 now2 s) = tasks s"
    "fst ` set (tasks (coordinate_agents_iteration now1 now2 s)) = fst ` set (tasks s)"
    by (simp_all add: coordinate_agents_iteration_def update_global_state_def c s1
          split: option.splits)
qed

lemma send_message_to_agent_fields:
  "running (snd (send_message_to_agent k m s)) = running s"
  "tasks (snd (send_message_to_agent k m s)) = tasks s"
  "shared_memory (snd (send_message_to_agent k m s)) = shared_memory s"
  by (auto simp: send_message_to_agent_def split: option.splits prod.splits)

lemma broadcast_message_fields:
  "running (snd (broadcast_message m s)) = running s"
  "tasks (snd (broadcast_message m s)) = tasks s"
  "shared_memory (snd (broadcast_message m s)) = shared_memory s"
  by (auto simp: broadcast_message_def split: prod.splits)

subsection \<open>Tasks\<close>

text \<open>A task that can still run finds the running flag set.\<close>

lemma pending_task_running:
  "reachable ags s \<Longrightarrow> (t, Pending) \<in> set (tasks s) \<Longrightarrow> running s"
proof (induction arbitrary: t rule: reachable.induct)
  case reachable_init
  then show ?case by (simp add: AgentOrchestrator_def)
next
  case (reachable_step s oper)
  show ?case
  proof (cases oper)
    case Start
    then show ?thesis by (simp add: start_fields)
  next
    case Stop
    have "(t, Pending) \<notin> set (map (\<lambda>(t, st). (t, cancel st)) (tasks s))"
      by (auto simp: cancel_not_pending)
    then show ?thesis
      using reachable_step.prems Stop by (simp add: stop_fields)
  next
    case (CyclePass now k)
    then have "running s"
      using reachable_step.hyps(2) reachable_step.IH by simp
    then show ?thesis
      using CyclePass by (simp add: run_agent_iteration_fields)
  next
    case (Tick now1 now2)
    then have "running s"
      using reachable_step.hyps(2) reachable_step.IH by simp
    then show ?thesis
      using Tick by (simp add: coordinate_agents_iteration_fields)
  next
    case (SendMessage k m)
    then show ?thesis
      using reachable_step.prems reachable_step.IH
      by (simp add: send_message_to_agent_fields)
  next
    case (Broadcast m)
    then show ?thesis
      using reachable_step.prems reachable_step.IH
      by (simp add: broadcast_message_fields)
  qed
qed

text \<open>Every cycle task belongs to a registered agent.\<close>

lemma step_keys: "fst ` set (agents (step oper s)) = fst ` set (agents s)"
  using shape_keys [OF step_shape, of oper s] by (metis set_map)

lemma cycle_task_registered:
  "reachable ags s \<Longrightarrow> (CycleTask k, st) \<in> set (tasks s) \<Longrightarrow> k \<in> fst ` set (agents s)"
proof (induction arbitrary: st rule: reachable.induct)
  case reachable_init
  then show ?case by (simp add: AgentOrchestrator_def)
next
  case (reachable_step s oper)
  have "CycleTask k \<in> fst ` set (tasks (step oper s))"
    using reachable_step.prems by force
  moreover have "fst ` set (tasks (step oper s)) \<subseteq>
      fst ` set (tasks s) \<union> insert CoordinationTask (CycleTask ` fst ` set (agents s))"
  proof (cases oper)
    case Start
    then show ?thesis using start_task_keys [of s] by simp
  next
    case Stop
    then show ?thesis by (auto simp: stop_task_keys)
  next
    case (CyclePass now k)
    then show ?thesis by (auto simp: run_agent_iteration_fields)
  next
    case (Tick now1 now2)
    then show ?thesis by (auto simp: coordinate_agents_iteration_fields)
  next
    case (SendMessage k m)
    then show ?thesis by (auto simp: send_message_to_agent_fields)
  next
    case (Broadcast m)
    then show ?thesis by (auto simp: broadcast_message_fields)
  qed
  ultimately have "CycleTask k \<in> fst ` set (tasks s) \<or> k \<in> fst ` set (agents s)"
    by blast
  then have "k \<in> fst ` set (agents s)"
  proof
    assume "CycleTask k \<in> fst ` set (tasks s)"
    then obtain st' where "(CycleTask k, st') \<in> set (tasks s)" by force
    then show ?thesis by (rule reachable_step.IH)
  qed
  then show ?case by (simp add: step_keys)
qed

text \<open>No operation but \<^verbatim>\<open>stop\<close> takes a task out of the schedule.\<close>

lemma pending_task_kept:
  assumes "reachable ags s" and "enabled oper s" and "oper \<noteq> Stop"
    and "(t, Pending) \<in> set (tasks s)"
  shows "(t, Pending) \<in> set (tasks (step oper s))"
proof -
  have r: "running s"
    using assms(1,4) by (rule pending_task_running)
  show ?thesis
  proof (cases oper)
    case Start
    obtain new where "tasks (snd (start s)) = tasks s @ new"
      using start_fields(3) [of s] by blast
    then show ?thesis using Start assms(4) by simp
  next
    case Stop
    then show ?thesis using assms(3) by simp
  next
    case (CyclePass now k)
    then show ?thesis using r assms(4) by (simp add: run_agent_iteration_fields)
  next
    case (Tick now1 now2)
    then show ?thesis using r assms(4) by (simp add: coordinate_agents_iteration_fields)
  next
    case (SendMessage k m)
    then show ?thesis using assms(4) by (simp add: send_message_to_agent_fields)
  next
    case (Broadcast m)
    then show ?thesis using assms(4) by (simp add: broadcast_message_fields)
  qed
qed

subsection \<open>One pass of the cycle loop\<close>

text \<open>
  Claim C1, as the code has it.  In a pass of the cycle loop in which
  \<^verbatim>\<open>execute_cycle\<close> returns, the result is written under the agent's name, in an
  envelope with the current time, exactly when it is truthy (\<^verbatim>\<open>if result:\<close>, of
  what the result reads as).  The test does not look into the result: an error payload
  \<^verbatim>\<open>{"error": message}\<close> is a non-empty dict and is written like any other result.
  Only a falsy result (an empty dict, \<^verbatim>\<open>None\<close>) leaves the shared memory as it
  was.  Either way the pass ends in the sleep of the agent's current cycle interval.
\<close>

theorem cycle_result_written_when_truthy:
  assumes "running s" and "map_of (agents s) k = Some a"
    and "execute_cycle (methods a) (read_shared_memory s) (state a) = (Inr result, st1)"
  shows "shared_memory (run_agent_iteration now k s) =
           (if truthy (resolve (objects st1) result)
            then AList.update (name a) (envelope now result) (shared_memory s)
            else shared_memory s)
         \<and> trace (run_agent_iteration now k s) =
             trace s @ [ExecuteCycleCalled k, ExecuteCycleReturned k result]
               @ (if truthy (resolve (objects st1) result)
                  then [MemoryWrite (CycleTask k) (name a) (envelope now result)]
                  else [])
               @ [Slept (CycleTask k) (cycle_interval st1)]
         \<and> (result = error_payload message \<longrightarrow>
              map_of (shared_memory (run_agent_iteration now k s)) (name a) =
                Some (envelope now (error_payload message)))"
proof -
  have mem: "shared_memory (run_agent_iteration now k s) =
           (if truthy (resolve (objects st1) result)
            then AList.update (name a) (envelope now result) (shared_memory s)
            else shared_memory s)"
    using assms by (simp add: run_agent_iteration_def Let_def)
  have tr: "trace (run_agent_iteration now k s) =
             trace s @ [ExecuteCycleCalled k, ExecuteCycleReturned k result]
               @ (if truthy (resolve (objects st1) result)
                  then [MemoryWrite (CycleTask k) (name a) (envelope now result)]
                  else [])
               @ [Slept (CycleTask k) (cycle_interval st1)]"
    using assms by (simp add: run_agent_iteration_def Let_def)
  have err: "map_of (shared_memory (run_agent_iteration now k s)) (name a) =
                Some (envelope now (error_payload message))"
    if "result = error_payload message"
    using that by (simp add: mem error_payload_def update_conv')
  from mem tr err show ?thesis by blast
qed

theorem cycle_result_written_when_truthy_witness:
  "running (snd (start (AgentOrchestrator [error_reporting_agent ''a''])))
   \<and> shared_memory (run_agent_iteration ''12:00'' ''a''
        (snd (start (AgentOrchestrator [error_reporting_agent ''a''])))) =
       [(''a'', PDict [(''last_update'', PStr ''12:00''),
                       (''data'', PDict [(''error'', PStr ''sensor offline'')])])]
   \<and> shared_memory (run_agent_iteration ''12:00'' ''a''
        (snd (start (AgentOrchestrator [quiet_agent ''a''])))) = []"
  using cycle_result_written_when_truthy
          [of "snd (start (AgentOrchestrator [error_reporting_agent ''a'']))" "''a''"
              "snd (initialize (error_reporting_agent ''a''))"
              "error_payload ''sensor offline''" "state (error_reporting_agent ''a'')" "''12:00''"
              "''sensor offline''"]
        cycle_result_written_when_truthy
          [of "snd (start (AgentOrchestrator [quiet_agent ''a'']))" "''a''"
              "snd (initialize (quiet_agent ''a''))"
              "PDict []" "state (quiet_agent ''a'')" "''12:00''"]
  by (simp add: fixture_defs error_reporting_agent_def error_payload_def initialize_def start_def
        envelope_def)

text \<open>
  The claim as the spec states it fails: after one pass of the loop of an agent whose
  cycle returned an error payload, the shared memory holds that payload under the
  agent's name.
\<close>

theorem error_payload_written_counterexample:
  "execute_cycle (methods (error_reporting_agent ''a'')) [] (state (error_reporting_agent ''a'')) =
     (Inr (error_payload ''sensor offline''), state (error_reporting_agent ''a''))
   \<and> map_of (shared_memory (run_agent_iteration ''12:00'' ''a''
        (snd (start (AgentOrchestrator [error_reporting_agent ''a''])))))  ''a'' =
       Some (envelope ''12:00'' (error_payload ''sensor offline''))"
  by (simp add: fixture_defs error_reporting_agent_def error_payload_def initialize_def start_def
        envelope_def run_agent_iteration_def)

subsection \<open>A cycle that raises\<close>

text \<open>
  Claim C7.  Let the cycle task of the agent under key \<open>k\<close> be scheduled, and let
  \<^verbatim>\<open>execute_cycle\<close> raise \<open>e\<close> in a pass of its loop.  The pass logs the error,
  writes nothing to the shared memory and ends in a sleep of 5.  The task stays
  scheduled and the running flag stays set, so its next pass calls
  \<^verbatim>\<open>execute_cycle\<close> again.  Whatever happens to the orchestrator then, the task
  stays scheduled unless it is \<^verbatim>\<open>stop\<close>, which cancels it.
\<close>

theorem failing_cycle_keeps_agent_scheduled:
  assumes "reachable ags s" and "enabled (CyclePass now k) s"
    and "map_of (agents s) k = Some a"
    and "execute_cycle (methods a) (read_shared_memory s) (state a) = (Inl e, st1)"
  shows "shared_memory (step (CyclePass now k) s) = shared_memory s
         \<and> trace (step (CyclePass now k) s) =
             trace s @ [ExecuteCycleCalled k,
                        LogError (''Error in agent '' @ name a @ '': '' @ str_exn e),
                        Slept (CycleTask k) 5]
         \<and> enabled (CyclePass now' k) (step (CyclePass now k) s)
         \<and> (\<exists>evs. trace (step (CyclePass now' k) (step (CyclePass now k) s)) =
                    trace (step (CyclePass now k) s) @ ExecuteCycleCalled k # evs)
         \<and> (\<forall>oper. enabled oper (step (CyclePass now k) s) \<and> oper \<noteq> Stop \<longrightarrow>
                enabled (CyclePass now' k) (step oper (step (CyclePass now k) s)))
         \<and> \<not> enabled (CyclePass now' k) (step Stop (step (CyclePass now k) s))"
proof -
  let ?s1 = "step (CyclePass now k) s"
  have pend: "(CycleTask k, Pending) \<in> set (tasks s)"
    using assms(2) by simp
  have run: "running s"
    using assms(1) pend by (rule pending_task_running)
  have r1: "reachable ags ?s1"
    using assms(1,2) by (rule reachable_step)
  have mem: "shared_memory ?s1 = shared_memory s"
    using run assms(3,4) by (simp add: run_agent_iteration_def)
  have tr: "trace ?s1 =
             trace s @ [ExecuteCycleCalled k,
                        LogError (''Error in agent '' @ name a @ '': '' @ str_exn e),
                        Slept (CycleTask k) 5]"
    using run assms(3,4) by (simp add: run_agent_iteration_def)
  have pend1: "(CycleTask k, Pending) \<in> set (tasks ?s1)"
    using assms(1,2) _ pend by (rule pending_task_kept) simp
  then have en1: "enabled (CyclePass now' k) ?s1"
    by simp
  have run1: "running ?s1"
    using r1 pend1 by (rule pending_task_running)
  have "k \<in> fst ` set (agents ?s1)"
    using r1 pend1 by (rule cycle_task_registered)
  then obtain a1 where a1: "map_of (agents ?s1) k = Some a1"
    by (metis map_of_eq_None_iff not_Some_eq)
  have "\<exists>evs. trace (run_agent_iteration now' k ?s1) = trace ?s1 @ ExecuteCycleCalled k # evs"
    using run1 a1
    by (cases "execute_cycle (methods a1) (read_shared_memory ?s1) (state a1)")
       (auto simp: run_agent_iteration_def Let_def split: sum.splits)
  then have nxt: "\<exists>evs. trace (step (CyclePass now' k) ?s1) = trace ?s1 @ ExecuteCycleCalled k # evs"
    by simp
  have keep: "enabled (CyclePass now' k) (step oper ?s1)"
    if "enabled oper ?s1 \<and> oper \<noteq> Stop" for oper
    using pending_task_kept [OF r1, of oper "CycleTask k"] that pend1 by simp
  have "(CycleTask k, Pending) \<notin> set (map (\<lambda>(t, st). (t, cancel st)) (tasks ?s1))"
    by (auto simp: cancel_not_pending)
  then have stopped: "\<not> enabled (CyclePass now' k) (step Stop ?s1)"
    by (simp add: stop_fields)
  from mem tr en1 nxt keep stopped show ?thesis by blast
qed

theorem failing_cycle_keeps_agent_scheduled_witness:
  "reachable [raising_cycle_agent ''a''] (snd (start (AgentOrchestrator [raising_cycle_agent ''a''])))
   \<and> enabled (CyclePass ''12:00'' ''a'') (snd (start (AgentOrchestrator [raising_cycle_agent ''a''])))
   \<and> shared_memory (step (CyclePass ''12:00'' ''a'')
         (snd (start (AgentOrchestrator [raising_cycle_agent ''a''])))) = []
   \<and> trace (step (CyclePass ''12:00'' ''a'')
         (snd (start (AgentOrchestrator [raising_cycle_agent ''a''])))) =
       [InitializeCalled ''a'', TaskCreated (CycleTask ''a''), TaskCreated CoordinationTask,
        LogInfo ''All agents started successfully'',
        ExecuteCycleCalled ''a'', LogError ''Error in agent a: connection reset'',
        Slept (CycleTask ''a'') 5]
   \<and> enabled (CyclePass ''12:05'' ''a'') (step (CyclePass ''12:00'' ''a'')
         (snd (start (AgentOrchestrator [raising_cycle_agent ''a'']))))"
proof -
  let ?s = "snd (start (AgentOrchestrator [raising_cycle_agent ''a'']))"
  have r: "reachable [raising_cycle_agent ''a''] ?s"
    using reachable_step [OF reachable_init, of Start "[raising_cycle_agent ''a'']"] by simp
  have en: "enabled (CyclePass ''12:00'' ''a'') ?s"
    by (simp add: fixture_defs raising_cycle_agent_def initialize_def start_def)
  have ag: "map_of (agents ?s) ''a'' = Some (snd (initialize (raising_cycle_agent ''a'')))"
    by (simp add: fixture_defs raising_cycle_agent_def initialize_def start_def)
  have ex: "execute_cycle (methods (snd (initialize (raising_cycle_agent ''a''))))
              (read_shared_memory ?s) (state (snd (initialize (raising_cycle_agent ''a'')))) =
            (Inl (Exc OtherException ''connection reset''), state (raising_cycle_agent ''a''))"
    by (simp add: fixture_defs raising_cycle_agent_def initialize_def start_def)
  show ?thesis
    using failing_cycle_keeps_agent_scheduled [OF r en ag ex, of "''12:05''"] r en
    by (simp add: fixture_defs raising_cycle_agent_def initialize_def start_def)
qed

subsection \<open>Who writes the shared memory\<close>

lemma no_write_refl: "no_write s s"
  by (simp add: no_write_def)

lemma no_write_trans: "no_write s s1 \<Longrightarrow> no_write s1 s2 \<Longrightarrow> no_write s s2"
  by (auto simp: no_write_def)

lemma no_write_emit: "list_all (\<lambda>ev. \<not> is_write ev) evs \<Longrightarrow> no_write s s1 \<Longrightarrow> no_write s (emit evs s1)"
  by (auto simp: no_write_def)

lemma initialize_all_events: "list_all (\<lambda>ev. \<not> is_write ev) (snd (snd (initialize_all ags)))"
  by (induction ags rule: initialize_all.induct) (auto split: prod.splits option.splits)

lemma shutdown_all_events: "list_all (\<lambda>ev. \<not> is_write ev) (snd (snd (shutdown_all ags)))"
  by (induction ags rule: shutdown_all.induct) (auto split: prod.splits option.splits)

lemma start_no_write: "no_write s (snd (start s))"
proof (cases s rule: start_cases)
  case (returned ags' evs)
  then show ?thesis
    using initialize_all_events [of "agents s"]
    by (simp add: no_write_def list_all_iff image_iff) auto
next
  case (raised e ags' evs)
  then show ?thesis
    using initialize_all_events [of "agents s"] by (simp add: no_write_def)
qed

lemma stop_no_write: "no_write s (snd (stop s))"
proof (cases s rule: stop_cases)
  case (returned ags' evs)
  then show ?thesis
    using shutdown_all_events [of "agents s"]
    by (simp add: no_write_def list_all_iff image_iff) auto
next
  case (raised e ags' evs)
  then show ?thesis
    using shutdown_all_events [of "agents s"]
    by (simp add: no_write_def list_all_iff image_iff) auto
qed

lemma send_no_write: "no_write s (snd (send_message_to_agent k m s))"
  by (auto simp: send_message_to_agent_def no_write_def split: option.splits prod.splits)

lemma broadcast_no_write: "no_write s (snd (broadcast_message m s))"
  using broadcast_loop_events [of m "agents s" "[]"]
  by (auto simp: broadcast_message_def no_write_def list_all_iff split: prod.splits)

lemma call_extension_no_write:
  "(\<And>k. \<not> is_write (ev k)) \<Longrightarrow> no_write s (snd (call_extension sel mn ev k arg s))"
  by (auto simp: call_extension_def no_write_def split: option.splits prod.splits)

lemma call_extension_no_write_eq:
  "(\<And>k. \<not> is_write (ev k)) \<Longrightarrow> call_extension sel mn ev k arg s = (r, s1) \<Longrightarrow> no_write s s1"
  using call_extension_no_write [of ev s sel mn k arg] by simp

lemma no_write_then_call:
  "no_write s s1 \<Longrightarrow> (\<And>k. \<not> is_write (ev k)) \<Longrightarrow>
   no_write s (snd (call_extension sel mn ev k arg s1))"
  using no_write_trans [OF _ call_extension_no_write] by blast

lemma check_cross_agent_actions_no_write: "no_write s (snd (check_cross_agent_actions s))"
  unfolding check_cross_agent_actions_def
  by (auto split: sum.splits prod.splits option.splits simp: no_write_refl
           dest!: call_extension_no_write_eq [rotated] intro: no_write_then_call)

lemma legitimate_write_mono:
  "legitimate_write keys tr t key v \<Longrightarrow> legitimate_write keys (tr @ evs) t key v"
  by (auto simp: legitimate_write_def)

lemma not_write_events:
  "list_all (\<lambda>ev. \<not> is_write ev) evs \<Longrightarrow> MemoryWrite t key v \<notin> set evs"
  by (auto simp: list_all_iff)

lemma no_write_discipline:
  assumes "no_write s s'" and "fst ` set (agents s') = fst ` set (agents s)"
    and "memory_discipline s"
  shows "memory_discipline s'"
proof -
  obtain evs where e: "trace s' = trace s @ evs" "list_all (\<lambda>ev. \<not> is_write ev) evs"
    and m: "shared_memory s' = shared_memory s"
    using assms(1) by (auto simp: no_write_def)
  have w: "MemoryWrite t key v \<in> set (trace s') \<Longrightarrow> MemoryWrite t key v \<in> set (trace s)"
    for t key v
    using not_write_events [OF e(2)] by (auto simp: e(1))
  show ?thesis
    unfolding memory_discipline_def
  proof (intro conjI allI impI)
    fix t key v
    assume "MemoryWrite t key v \<in> set (trace s')"
    then have "MemoryWrite t key v \<in> set (trace s)" by (rule w)
    then have "legitimate_write (fst ` set (agents s)) (trace s) t key v"
      using assms(3) by (simp add: memory_discipline_def)
    then show "legitimate_write (fst ` set (agents s')) (trace s') t key v"
      by (simp add: assms(2) e(1) legitimate_write_mono)
  next
    fix key v
    assume "map_of (shared_memory s') key = Some v"
    then have "\<exists>t. MemoryWrite t key v \<in> set (trace s)"
      using assms(3) by (simp add: memory_discipline_def m)
    then show "\<exists>t. MemoryWrite t key v \<in> set (trace s')"
      by (auto simp: e(1))
  qed
qed

text \<open>A write appended to the history and made in the shared memory, when it is in order.\<close>

lemma write_discipline:
  assumes "memory_discipline s"
    and "fst ` set (agents s') = fst ` set (agents s)"
    and "shared_memory s' = AList.update key v (shared_memory s)"
    and "trace s' = trace s @ before @ MemoryWrite t key v # after"
    and "list_all (\<lambda>ev. \<not> is_write ev) before" and "list_all (\<lambda>ev. \<not> is_write ev) after"
    and "legitimate_write (fst ` set (agents s)) (trace s') t key v"
  shows "memory_discipline s'"
  unfolding memory_discipline_def
proof (intro conjI allI impI)
  fix t' key' v'
  assume "MemoryWrite t' key' v' \<in> set (trace s')"
  then have "MemoryWrite t' key' v' \<in> set (trace s) \<or> (t' = t \<and> key' = key \<and> v' = v)"
    using not_write_events [OF assms(5)] not_write_events [OF assms(6)]
    by (auto simp: assms(4))
  then show "legitimate_write (fst ` set (agents s')) (trace s') t' key' v'"
  proof
    assume "MemoryWrite t' key' v' \<in> set (trace s)"
    then have "legitimate_write (fst ` set (agents s)) (trace s) t' key' v'"
      using assms(1) by (simp add: memory_discipline_def)
    then show ?thesis
      by (simp add: assms(2,4) legitimate_write_mono)
  next
    assume "t' = t \<and> key' = key \<and> v' = v"
    then show ?thesis using assms(7) by (simp add: assms(2))
  qed
next
  fix key' v'
  assume h: "map_of (shared_memory s') key' = Some v'"
  show "\<exists>t. MemoryWrite t key' v' \<in> set (trace s')"
  proof (cases "key' = key")
    case True
    then have "v' = v" using h by (simp add: assms(3) update_conv')
    then show ?thesis using True by (auto simp: assms(4))
  next
    case False
    then have "map_of (shared_memory s) key' = Some v'"
      using h by (simp add: assms(3) update_conv')
    then have "\<exists>t. MemoryWrite t key' v' \<in> set (trace s)"
      using assms(1) by (simp add: memory_discipline_def)
    then show ?thesis by (auto simp: assms(4))
  qed
qed

lemma cycle_discipline:
  assumes "reachable ags s" and "memory_discipline s"
  shows "memory_discipline (run_agent_iteration now k s)"
proof (cases "map_of (agents s) k")
  case None
  then show ?thesis using assms(2) by (simp add: run_agent_iteration_def)
next
  case (Some a)
  have keys: "fst ` set (agents (run_agent_iteration now k s)) = fst ` set (agents s)"
    using step_keys [of "CyclePass now k" s] by simp
  have nm: "name a = k"
    using assms(1) Some by (rule reachable_key_is_name)
  have k: "k \<in> fst ` set (agents s)"
    using Some by (metis map_of_eq_None_iff option.distinct(1))
  obtain r st1 where ex: "execute_cycle (methods a) (read_shared_memory s) (state a) = (r, st1)"
    by (cases "execute_cycle (methods a) (read_shared_memory s) (state a)")
  consider (idle) "\<not> running s" | (raised) e where "running s" "r = Inl e"
    | (falsy) res where "running s" "r = Inr res" "\<not> truthy (resolve (objects st1) res)"
    | (truthy) res where "running s" "r = Inr res" "truthy (resolve (objects st1) res)"
    by (cases r) auto
  then show ?thesis
  proof cases
    case idle
    then have "no_write s (run_agent_iteration now k s)"
      by (simp add: run_agent_iteration_def Some no_write_def)
    then show ?thesis using keys assms(2) by (rule no_write_discipline)
  next
    case (raised e)
    then have "no_write s (run_agent_iteration now k s)"
      by (simp add: run_agent_iteration_def Some ex no_write_def)
    then show ?thesis using keys assms(2) by (rule no_write_discipline)
  next
    case (falsy res)
    then have "no_write s (run_agent_iteration now k s)"
      by (simp add: run_agent_iteration_def Some ex no_write_def Let_def)
    then show ?thesis using keys assms(2) by (rule no_write_discipline)
  next
    case (truthy res)
    have m: "shared_memory (run_agent_iteration now k s) =
        AList.update k (envelope now res) (shared_memory s)"
      using truthy by (simp add: run_agent_iteration_def Some ex Let_def nm)
    have t: "trace (run_agent_iteration now k s) =
        trace s @ [ExecuteCycleCalled k, ExecuteCycleReturned k res]
          @ MemoryWrite (CycleTask k) k (envelope now res) # [Slept (CycleTask k) (cycle_interval st1)]"
      using truthy by (simp add: run_agent_iteration_def Some ex Let_def nm)
    have l: "legitimate_write (fst ` set (agents s)) (trace (run_agent_iteration now k s))
        (CycleTask k) k (envelope now res)"
      unfolding legitimate_write_def using k by (auto simp: t)
    show ?thesis
      using assms(2) keys m t _ _ l by (rule write_discipline) simp_all
  qed
qed

lemma check_cross_agent_actions_keys:
  "fst ` set (agents (snd (check_cross_agent_actions s))) = fst ` set (agents s)"
  using shape_keys [OF check_shape, of s] by (metis set_map)

lemma tick_discipline:
  assumes "memory_discipline s"
  shows "memory_discipline (coordinate_agents_iteration now1 now2 s)"
proof -
  obtain r s1 where c: "check_cross_agent_actions s = (r, s1)"
    by (cases "check_cross_agent_actions s")
  have nw: "no_write s s1"
    using check_cross_agent_actions_no_write [of s] c by simp
  have k1: "fst ` set (agents s1) = fst ` set (agents s)"
    using check_cross_agent_actions_keys [of s] c by simp
  have d1: "memory_discipline s1"
    using nw k1 assms by (rule no_write_discipline)
  consider (idle) "\<not> running s" | (raised) e where "running s" "r = Some e"
    | (returned) "running s" "r = None"
    by (cases r) auto
  then show ?thesis
  proof cases
    case idle
    then have "no_write s (coordinate_agents_iteration now1 now2 s)"
      by (simp add: coordinate_agents_iteration_def no_write_def)
    moreover have "fst ` set (agents (coordinate_agents_iteration now1 now2 s)) = fst ` set (agents s)"
      using idle by (simp add: coordinate_agents_iteration_def)
    ultimately show ?thesis using assms by (rule no_write_discipline)
  next
    case (raised e)
    then have "no_write s1 (coordinate_agents_iteration now1 now2 s)"
      by (simp add: coordinate_agents_iteration_def c no_write_def)
    moreover have "fst ` set (agents (coordinate_agents_iteration now1 now2 s)) = fst ` set (agents s1)"
      using raised by (simp add: coordinate_agents_iteration_def c)
    ultimately show ?thesis using d1 by (rule no_write_discipline)
  next
    case returned
    let ?v = "system_entry now1 now2 (agents s1)"
    let ?s' = "coordinate_agents_iteration now1 now2 s"
    have a: "fst ` set (agents ?s') = fst ` set (agents s1)"
      using returned by (simp add: coordinate_agents_iteration_def c update_global_state_def)
    have m: "shared_memory ?s' = AList.update ''system'' ?v (shared_memory s1)"
      using returned by (simp add: coordinate_agents_iteration_def c update_global_state_def)
    have t: "trace ?s' = trace s1 @ [] @ MemoryWrite CoordinationTask ''system'' ?v
                 # [Slept CoordinationTask 30]"
      using returned by (simp add: coordinate_agents_iteration_def c update_global_state_def)
    have l: "legitimate_write (fst ` set (agents s1)) (trace ?s') CoordinationTask ''system'' ?v"
      by (simp add: legitimate_write_def)
    show ?thesis
      using d1 a m t _ _ l by (rule write_discipline) simp_all
  qed
qed

lemma reachable_discipline: "reachable ags s \<Longrightarrow> memory_discipline s"
proof (induction rule: reachable.induct)
  case reachable_init
  then show ?case by (simp add: memory_discipline_def AgentOrchestrator_def)
next
  case (reachable_step s oper)
  show ?case
  proof (cases oper)
    case Start
    have "no_write s (step oper s)" using Start by (simp add: start_no_write)
    then show ?thesis using step_keys reachable_step.IH by (rule no_write_discipline)
  next
    case Stop
    have "no_write s (step oper s)" using Stop by (simp add: stop_no_write)
    then show ?thesis using step_keys reachable_step.IH by (rule no_write_discipline)
  next
    case (CyclePass now k)
    then show ?thesis
      using cycle_discipline [OF reachable_step.hyps(1) reachable_step.IH] by simp
  next
    case (Tick now1 now2)
    then show ?thesis
      using tick_discipline [OF reachable_step.IH] by simp
  next
    case (SendMessage k m)
    have "no_write s (step oper s)" using SendMessage by (simp add: send_no_write)
    then show ?thesis using step_keys reachable_step.IH by (rule no_write_discipline)
  next
    case (Broadcast m)
    have "no_write s (step oper s)" using Broadcast by (simp add: broadcast_no_write)
    then show ?thesis using step_keys reachable_step.IH by (rule no_write_discipline)
  qed
qed

lemma constructor_keys:
  "fst ` set (foldl (\<lambda>d a. AList.update (name a) a d) d0 ags) = fst ` set d0 \<union> name ` set ags"
  by (induction ags arbitrary: d0) (auto simp: dom_update)

lemma reachable_keys: "reachable ags s \<Longrightarrow> fst ` set (agents s) = name ` set ags"
proof (induction rule: reachable.induct)
  case reachable_init
  then show ?case by (simp add: AgentOrchestrator_def constructor_keys)
next
  case (reachable_step s oper)
  then show ?case by (simp add: step_keys)
qed

lemma cycle_binding_change:
  assumes "reachable ags s"
    and "map_of (shared_memory (run_agent_iteration now k s)) key \<noteq> map_of (shared_memory s) key"
  shows "key = k \<and>
         (\<exists>a r st1. map_of (agents s) key = Some a \<and>
            execute_cycle (methods a) (read_shared_memory s) (state a) = (Inr r, st1) \<and>
            map_of (shared_memory (run_agent_iteration now k s)) key = Some (envelope now r))"
proof (cases "map_of (agents s) k")
  case None
  then show ?thesis using assms(2) by (simp add: run_agent_iteration_def)
next
  case (Some a)
  have nm: "name a = k"
    using assms(1) Some by (rule reachable_key_is_name)
  obtain r st1 where ex: "execute_cycle (methods a) (read_shared_memory s) (state a) = (r, st1)"
    by (cases "execute_cycle (methods a) (read_shared_memory s) (state a)")
  show ?thesis
  proof (cases r)
    case (Inl e)
    then show ?thesis
      using assms(2) by (simp add: run_agent_iteration_def Some ex split: if_splits)
  next
    case (Inr res)
    have m: "shared_memory (run_agent_iteration now k s) = shared_memory s \<or>
             shared_memory (run_agent_iteration now k s) =
               AList.update k (envelope now res) (shared_memory s)"
      by (simp add: run_agent_iteration_def Some ex Inr Let_def nm)
    then have u: "shared_memory (run_agent_iteration now k s) =
               AList.update k (envelope now res) (shared_memory s)"
      using assms(2) by auto
    have "key = k"
      using assms(2) by (auto simp: u update_conv' split: if_splits)
    then show ?thesis
      using Some ex Inr by (simp add: u update_conv')
  qed
qed

lemma tick_binding_change:
  assumes "map_of (shared_memory (coordinate_agents_iteration now1 now2 s)) key \<noteq>
           map_of (shared_memory s) key"
  shows "key = ''system'' \<and>
         map_of (shared_memory (coordinate_agents_iteration now1 now2 s)) key =
           Some (system_entry now1 now2 (agents (coordinate_agents_iteration now1 now2 s)))"
proof -
  obtain r s1 where c: "check_cross_agent_actions s = (r, s1)"
    by (cases "check_cross_agent_actions s")
  have m1: "shared_memory s1 = shared_memory s"
    using check_cross_agent_actions_fields(3) [of s] c by simp
  have run: "running s" and ret: "r = None"
    using assms by (auto simp: coordinate_agents_iteration_def c m1 split: if_splits option.splits)
  have u: "shared_memory (coordinate_agents_iteration now1 now2 s) =
        AList.update ''system'' (system_entry now1 now2 (agents s1)) (shared_memory s)"
    and a: "agents (coordinate_agents_iteration now1 now2 s) = agents s1"
    using run ret by (simp_all add: coordinate_agents_iteration_def c m1 update_global_state_def)
  have "key = ''system''"
    using assms by (auto simp: u update_conv' split: if_splits)
  then show ?thesis
    by (simp add: u a update_conv')
qed

lemma step_binding_change:
  assumes "reachable ags s"
    and "map_of (shared_memory (step oper s)) key \<noteq> map_of (shared_memory s) key"
  shows "(\<exists>now a r st1. oper = CyclePass now key \<and> map_of (agents s) key = Some a \<and>
            execute_cycle (methods a) (read_shared_memory s) (state a) = (Inr r, st1) \<and>
            map_of (shared_memory (step oper s)) key = Some (envelope now r))
         \<or> (\<exists>now1 now2. oper = Tick now1 now2 \<and> key = ''system'' \<and>
              map_of (shared_memory (step oper s)) key =
                Some (system_entry now1 now2 (agents (step oper s))))"
proof (cases oper)
  case Start
  then show ?thesis using assms(2) by (simp add: start_fields)
next
  case Stop
  then show ?thesis using assms(2) by (simp add: stop_fields)
next
  case (CyclePass now k)
  then show ?thesis
    using cycle_binding_change [OF assms(1), of now k key] assms(2) by auto
next
  case (Tick now1 now2)
  then show ?thesis
    using tick_binding_change [of now1 now2 s key] assms(2) by auto
next
  case (SendMessage k m)
  then show ?thesis using assms(2) by (simp add: send_message_to_agent_fields)
next
  case (Broadcast m)
  then show ?thesis using assms(2) by (simp add: broadcast_message_fields)
qed

lemma map_of_map_keyed:
  "map_of (map (\<lambda>(k, v). (k, f k v)) al) key = map_option (f key) (map_of al key)"
  by (induction al) auto

lemma read_entry:
  "map_of (read_shared_memory s) key =
     map_option (resolve (case map_of (agents s) key of
                            None \<Rightarrow> [] | Some a \<Rightarrow> objects (state a)))
       (map_of (shared_memory s) key)"
  unfolding read_shared_memory_def by (rule map_of_map_keyed)

lemma step_reading_change:
  assumes "map_of (read_shared_memory (step oper s)) key \<noteq> map_of (read_shared_memory s) key"
  shows "map_of (shared_memory (step oper s)) key \<noteq> map_of (shared_memory s) key \<or>
         (\<exists>a a'. map_of (agents s) key = Some a \<and> map_of (agents (step oper s)) key = Some a' \<and>
                  objects (state a') \<noteq> objects (state a))"
proof (rule ccontr)
  assume n: "\<not> ?thesis"
  then have b: "map_of (shared_memory (step oper s)) key = map_of (shared_memory s) key"
    by simp
  have "(map_of (agents (step oper s)) key = None) = (map_of (agents s) key = None)"
    using step_keys [of oper s] by (simp add: map_of_eq_None_iff)
  then have "(case map_of (agents (step oper s)) key of None \<Rightarrow> [] | Some a \<Rightarrow> objects (state a)) =
             (case map_of (agents s) key of None \<Rightarrow> [] | Some a \<Rightarrow> objects (state a))"
    using n by (auto split: option.splits)
  then show False
    using assms by (simp add: read_entry b)
qed


text \<open>
  Claim C3, as the code has it.  The claim holds of what is assigned, not of what is
  read.  In every state an orchestrator can get into, the shared memory binds a key
  other than \<^verbatim>\<open>system\<close> only to what the cycle task of the agent registered under
  that key assigned: an envelope around the object that a completed
  \<^verbatim>\<open>execute_cycle\<close> of this agent returned.  Every assignment under a key is made by
  the cycle task of the agent registered under it or, under \<^verbatim>\<open>system\<close>, by the
  coordination task (the orchestrator does not reserve the name: the cycle task of an
  agent registered as \<^verbatim>\<open>system\<close> assigns that key too).  An operation changes the
  binding of a key only so: a pass of that agent's cycle loop whose
  \<^verbatim>\<open>execute_cycle\<close> returned binds the key to the envelope of the result, a tick
  binds \<^verbatim>\<open>system\<close> to the global state.  The result is stored by reference.  What
  is read under a key changes without an assignment when the agent registered under it
  changes an object that its result holds, in whatever task the method runs that does
  so; it changes in no other way.  This is for agents that only read the shared memory
  they are handed, as those of the repository do.
\<close>

theorem shared_memory_written_by_owner:
  assumes "reachable ags s"
  shows "(\<forall>key v. key \<noteq> ''system'' \<and> map_of (shared_memory s) key = Some v \<longrightarrow>
            key \<in> name ` set ags \<and>
            (\<exists>now r. v = envelope now r \<and> ExecuteCycleReturned key r \<in> set (trace s) \<and>
                      MemoryWrite (CycleTask key) key v \<in> set (trace s)))
         \<and> (\<forall>t key v. MemoryWrite t key v \<in> set (trace s) \<longrightarrow>
                t = CycleTask key \<and> key \<in> name ` set ags \<or>
                t = CoordinationTask \<and> key = ''system'')
         \<and> (\<forall>oper key.
                map_of (shared_memory (step oper s)) key \<noteq> map_of (shared_memory s) key \<longrightarrow>
                (\<exists>now a r st1. oper = CyclePass now key \<and> map_of (agents s) key = Some a \<and>
                    execute_cycle (methods a) (read_shared_memory s) (state a) = (Inr r, st1) \<and>
                    map_of (shared_memory (step oper s)) key = Some (envelope now r))
                \<or> (\<exists>now1 now2. oper = Tick now1 now2 \<and> key = ''system'' \<and>
                      map_of (shared_memory (step oper s)) key =
                        Some (system_entry now1 now2 (agents (step oper s)))))
         \<and> (\<forall>oper key.
                map_of (read_shared_memory (step oper s)) key \<noteq> map_of (read_shared_memory s) key \<longrightarrow>
                map_of (shared_memory (step oper s)) key \<noteq> map_of (shared_memory s) key \<or>
                (\<exists>a a'. map_of (agents s) key = Some a \<and>
                         map_of (agents (step oper s)) key = Some a' \<and>
                         objects (state a') \<noteq> objects (state a)))"
proof -
  have d: "memory_discipline s"
    using assms by (rule reachable_discipline)
  have keys: "fst ` set (agents s) = name ` set ags"
    using assms by (rule reachable_keys)
  have legit: "legitimate_write (name ` set ags) (trace s) t key v"
    if "MemoryWrite t key v \<in> set (trace s)" for t key v
    using d that by (simp add: memory_discipline_def keys)
  have written: "\<exists>t. MemoryWrite t key v \<in> set (trace s)"
    if "map_of (shared_memory s) key = Some v" for key v
    using d that by (simp add: memory_discipline_def)
  have writer: "t = CycleTask key \<and> key \<in> name ` set ags \<or> t = CoordinationTask \<and> key = ''system''"
    if "MemoryWrite t key v \<in> set (trace s)" for t key v
    using legit [OF that] by (auto simp: legitimate_write_def)
  have entry: "key \<in> name ` set ags \<and>
            (\<exists>now r. v = envelope now r \<and> ExecuteCycleReturned key r \<in> set (trace s) \<and>
                      MemoryWrite (CycleTask key) key v \<in> set (trace s))"
    if h: "key \<noteq> ''system'' \<and> map_of (shared_memory s) key = Some v" for key v
  proof -
    obtain t where w: "MemoryWrite t key v \<in> set (trace s)"
      using written h by blast
    then have t: "t = CycleTask key" using writer [OF w] h by blast
    show ?thesis
      using legit [OF w] w h by (auto simp: legitimate_write_def t)
  qed
  have binding: "(\<exists>now a r st1. oper = CyclePass now key \<and> map_of (agents s) key = Some a \<and>
                    execute_cycle (methods a) (read_shared_memory s) (state a) = (Inr r, st1) \<and>
                    map_of (shared_memory (step oper s)) key = Some (envelope now r))
                \<or> (\<exists>now1 now2. oper = Tick now1 now2 \<and> key = ''system'' \<and>
                      map_of (shared_memory (step oper s)) key =
                        Some (system_entry now1 now2 (agents (step oper s))))"
    if "map_of (shared_memory (step oper s)) key \<noteq> map_of (shared_memory s) key" for oper key
    using assms that by (rule step_binding_change)
  have reading: "map_of (shared_memory (step oper s)) key \<noteq> map_of (shared_memory s) key \<or>
                (\<exists>a a'. map_of (agents s) key = Some a \<and>
                         map_of (agents (step oper s)) key = Some a' \<and>
                         objects (state a') \<noteq> objects (state a))"
    if "map_of (read_shared_memory (step oper s)) key \<noteq> map_of (read_shared_memory s) key"
    for oper key
    using that by (rule step_reading_change)
  show ?thesis
  proof (intro conjI allI impI)
    fix key v
    assume h: "key \<noteq> ''system'' \<and> map_of (shared_memory s) key = Some v"
    show "key \<in> name ` set ags" using entry [OF h] by simp
    show "\<exists>now r. v = envelope now r \<and> ExecuteCycleReturned key r \<in> set (trace s) \<and>
                      MemoryWrite (CycleTask key) key v \<in> set (trace s)"
      using entry [OF h] by simp
  next
    fix t key v
    assume "MemoryWrite t key v \<in> set (trace s)"
    then show "t = CycleTask key \<and> key \<in> name ` set ags \<or> t = CoordinationTask \<and> key = ''system''"
      by (rule writer)
  next
    fix oper key
    assume "map_of (shared_memory (step oper s)) key \<noteq> map_of (shared_memory s) key"
    then show "(\<exists>now a r st1. oper = CyclePass now key \<and> map_of (agents s) key = Some a \<and>
                    execute_cycle (methods a) (read_shared_memory s) (state a) = (Inr r, st1) \<and>
                    map_of (shared_memory (step oper s)) key = Some (envelope now r))
                \<or> (\<exists>now1 now2. oper = Tick now1 now2 \<and> key = ''system'' \<and>
                      map_of (shared_memory (step oper s)) key =
                        Some (system_entry now1 now2 (agents (step oper s))))"
      by (rule binding)
  next
    fix oper key
    assume "map_of (read_shared_memory (step oper s)) key \<noteq> map_of (read_shared_memory s) key"
    then show "map_of (shared_memory (step oper s)) key \<noteq> map_of (shared_memory s) key \<or>
                (\<exists>a a'. map_of (agents s) key = Some a \<and>
                         map_of (agents (step oper s)) key = Some a' \<and>
                         objects (state a') \<noteq> objects (state a))"
      by (rule reading)
  qed
qed

theorem shared_memory_written_by_owner_witness:
  "reachable [reporting_agent ''a'']
     (step (Tick ''12:01'' ''12:02'') (step (CyclePass ''12:00'' ''a'')
        (step Start (AgentOrchestrator [reporting_agent ''a'']))))
   \<and> shared_memory
       (step (Tick ''12:01'' ''12:02'') (step (CyclePass ''12:00'' ''a'')
          (step Start (AgentOrchestrator [reporting_agent ''a''])))) =
     [(''a'', envelope ''12:00'' (PDict [(''aqi'', PInt 42)])),
      (''system'', PDict [(''timestamp'', PStr ''12:01''), (''agents_running'', PInt 1),
                          (''total_actions'', PInt 0), (''uptime'', PStr ''12:02'')])]
   \<and> ExecuteCycleReturned ''a'' (PDict [(''aqi'', PInt 42)]) \<in> set (trace
       (step (Tick ''12:01'' ''12:02'') (step (CyclePass ''12:00'' ''a'')
          (step Start (AgentOrchestrator [reporting_agent ''a''])))))
   \<and> map_of (shared_memory (step (CyclePass ''12:00'' ''a'')
          (step Start (AgentOrchestrator [reporting_agent ''a''])))) ''a'' \<noteq>
       map_of (shared_memory (step Start (AgentOrchestrator [reporting_agent ''a'']))) ''a''
   \<and> map_of (read_shared_memory (step (CyclePass ''12:00'' ''a'')
          (step Start (AgentOrchestrator [reporting_agent ''a''])))) ''a'' \<noteq>
       map_of (read_shared_memory (step Start (AgentOrchestrator [reporting_agent ''a'']))) ''a''"
proof -
  let ?s0 = "AgentOrchestrator [reporting_agent ''a'']"
  let ?s1 = "step Start ?s0"
  let ?s2 = "step (CyclePass ''12:00'' ''a'') ?s1"
  let ?s3 = "step (Tick ''12:01'' ''12:02'') ?s2"
  note defs = fixture_defs reporting_agent_def initialize_def start_def run_agent_iteration_def
    read_shared_memory_def envelope_def
  have r1: "reachable [reporting_agent ''a''] ?s1"
    using reachable_step [OF reachable_init, of Start] by simp
  have "enabled (CyclePass ''12:00'' ''a'') ?s1"
    by (simp add: defs)
  with r1 have r2: "reachable [reporting_agent ''a''] ?s2"
    by (rule reachable_step)
  have "enabled (Tick ''12:01'' ''12:02'') ?s2"
    by (simp add: defs)
  with r2 have r3: "reachable [reporting_agent ''a''] ?s3"
    by (rule reachable_step)
  have m: "shared_memory ?s3 =
     [(''a'', envelope ''12:00'' (PDict [(''aqi'', PInt 42)])),
      (''system'', PDict [(''timestamp'', PStr ''12:01''), (''agents_running'', PInt 1),
                          (''total_actions'', PInt 0), (''uptime'', PStr ''12:02'')])]"
    by (simp add: defs coordinate_agents_iteration_def check_cross_agent_actions_def
          update_global_state_def system_entry_def call_extension_def)
  have h: "''a'' \<noteq> ''system'' \<and>
        map_of (shared_memory ?s3) ''a'' = Some (envelope ''12:00'' (PDict [(''aqi'', PInt 42)]))"
    unfolding m by simp
  note entry = shared_memory_written_by_owner [OF r3, THEN conjunct1, rule_format, OF h]
  then obtain now r where e: "envelope ''12:00'' (PDict [(''aqi'', PInt 42)]) = envelope now r"
      "ExecuteCycleReturned ''a'' r \<in> set (trace ?s3)"
    by blast
  from e(1) have "r = PDict [(''aqi'', PInt 42)]"
    by (simp add: envelope_def)
  with e(2) have c: "ExecuteCycleReturned ''a'' (PDict [(''aqi'', PInt 42)]) \<in> set (trace ?s3)"
    by simp
  have b: "map_of (shared_memory ?s2) ''a'' \<noteq> map_of (shared_memory ?s1) ''a''"
    by (simp add: defs)
  have rd: "map_of (read_shared_memory ?s2) ''a'' \<noteq> map_of (read_shared_memory ?s1) ''a''"
    by (simp add: defs)
  from r3 m c b rd show ?thesis by (intro conjI)
qed

text \<open>
  The claim as the spec states it fails for the community agent.  Its cycle returns the
  list \<^verbatim>\<open>active_campaigns\<close> itself, and the cycle task stores the result; the list
  is empty.  The monitoring agent has published an alert, so the next tick of the
  coordination task calls \<^verbatim>\<open>coordinate_pollution_response\<close>, which appends a campaign
  to that list.  The entry under the agent's name is bound as before, yet its data now
  holds a campaign: data that the one completed cycle of the agent did not return, put
  there in the coordination task.
\<close>

theorem published_campaigns_changed_counterexample:
  "reachable [alerting_agent \<lparr>active_campaigns = 0, community_members = []\<rparr>, CommunityCoordinationAgent example_community_env]
     (step (Tick ''12:20'' ''12:21'')
      (step (CyclePass ''12:10'' ''CommunityCoordinationAgent'')
        (step (CyclePass ''12:00'' ''EnvironmentalMonitoringAgent'')
           (step Start (AgentOrchestrator [alerting_agent \<lparr>active_campaigns = 0, community_members = []\<rparr>, CommunityCoordinationAgent example_community_env])))))
   \<and> filter (is_cycle_return ''CommunityCoordinationAgent'') (trace (step (Tick ''12:20'' ''12:21'')
      (step (CyclePass ''12:10'' ''CommunityCoordinationAgent'')
        (step (CyclePass ''12:00'' ''EnvironmentalMonitoringAgent'')
           (step Start (AgentOrchestrator [alerting_agent \<lparr>active_campaigns = 0, community_members = []\<rparr>, CommunityCoordinationAgent example_community_env])))))) =
       [ExecuteCycleReturned ''CommunityCoordinationAgent''
          (PDict [(''coordination_needs'', PList []), (''active_campaigns'', PRef 1),
              (''coordinated_actions'', PList []), (''engagement_metrics'', PDict []),
              (''timestamp'', PStr ''12:30'')])]
   \<and> map_of (read_shared_memory (step (CyclePass ''12:10'' ''CommunityCoordinationAgent'')
        (step (CyclePass ''12:00'' ''EnvironmentalMonitoringAgent'')
           (step Start (AgentOrchestrator [alerting_agent \<lparr>active_campaigns = 0, community_members = []\<rparr>, CommunityCoordinationAgent example_community_env]))))) ''CommunityCoordinationAgent'' =
       Some (envelope ''12:10''
          (PDict [(''coordination_needs'', PList []), (''active_campaigns'', PList []),
              (''coordinated_actions'', PList []), (''engagement_metrics'', PDict []),
              (''timestamp'', PStr ''12:30'')]))
   \<and> map_of (shared_memory (step (Tick ''12:20'' ''12:21'')
      (step (CyclePass ''12:10'' ''CommunityCoordinationAgent'')
        (step (CyclePass ''12:00'' ''EnvironmentalMonitoringAgent'')
           (step Start (AgentOrchestrator [alerting_agent \<lparr>active_campaigns = 0, community_members = []\<rparr>, CommunityCoordinationAgent example_community_env])))))) ''CommunityCoordinationAgent'' =
       map_of (shared_memory (step (CyclePass ''12:10'' ''CommunityCoordinationAgent'')
        (step (CyclePass ''12:00'' ''EnvironmentalMonitoringAgent'')
           (step Start (AgentOrchestrator [alerting_agent \<lparr>active_campaigns = 0, community_members = []\<rparr>, CommunityCoordinationAgent example_community_env]))))) ''CommunityCoordinationAgent''
   \<and> (\<exists>campaign. py_get campaign ''id'' PNone = Inr (PStr ''campaign_I'') \<and>
        py_get campaign ''type'' PNone = Inr (PStr ''pollution_emergency'') \<and>
        map_of (read_shared_memory (step (Tick ''12:20'' ''12:21'')
      (step (CyclePass ''12:10'' ''CommunityCoordinationAgent'')
        (step (CyclePass ''12:00'' ''EnvironmentalMonitoringAgent'')
           (step Start (AgentOrchestrator [alerting_agent \<lparr>active_campaigns = 0, community_members = []\<rparr>, CommunityCoordinationAgent example_community_env])))))) ''CommunityCoordinationAgent'' =
          Some (envelope ''12:10''
            (PDict [(''coordination_needs'', PList []), (''active_campaigns'', PList [campaign]),
              (''coordinated_actions'', PList []), (''engagement_metrics'', PDict []),
              (''timestamp'', PStr ''12:30'')])))"
proof -
  let ?s1 = "step Start (AgentOrchestrator [alerting_agent \<lparr>active_campaigns = 0, community_members = []\<rparr>, CommunityCoordinationAgent example_community_env])"
  let ?s2 = "step (CyclePass ''12:00'' ''EnvironmentalMonitoringAgent'') ?s1"
  let ?s3 = "step (CyclePass ''12:10'' ''CommunityCoordinationAgent'') ?s2"
  let ?s4 = "step (Tick ''12:20'' ''12:21'') ?s3"
  note defs = AgentOrchestrator_def BaseAgent_def alerting_agent_def
    CommunityCoordinationAgent_def CommunityCoordinationAgent_class_def community_setup_def
    community_execute_cycle_def example_community_env_def
    store_memory_def initialize_def start_def run_agent_iteration_def envelope_def
    read_shared_memory_def new_object_def get_object_def record_action_def Let_def
  note tick = coordinate_agents_iteration_def check_cross_agent_actions_def call_extension_def
    update_global_state_def system_entry_def
    community_coordinate_pollution_response_def create_campaign_def append_campaign_def
    with_participants_def set_object_def get_memory_def add_int_def bind_exn_def compare_num_def
    generate_campaign_title_def generate_campaign_actions_def campaign_action_def
    calculate_target_participants_def
  have r1: "reachable [alerting_agent \<lparr>active_campaigns = 0, community_members = []\<rparr>, CommunityCoordinationAgent example_community_env] ?s1"
    using reachable_step [OF reachable_init, of Start] by simp
  have "enabled (CyclePass ''12:00'' ''EnvironmentalMonitoringAgent'') ?s1"
    by (simp add: defs)
  with r1 have r2: "reachable [alerting_agent \<lparr>active_campaigns = 0, community_members = []\<rparr>, CommunityCoordinationAgent example_community_env] ?s2"
    by (rule reachable_step)
  have "enabled (CyclePass ''12:10'' ''CommunityCoordinationAgent'') ?s2"
    by (simp add: defs)
  with r2 have r3: "reachable [alerting_agent \<lparr>active_campaigns = 0, community_members = []\<rparr>, CommunityCoordinationAgent example_community_env] ?s3"
    by (rule reachable_step)
  have "enabled (Tick ''12:20'' ''12:21'') ?s3"
    by (simp add: defs)
  with r3 have r4: "reachable [alerting_agent \<lparr>active_campaigns = 0, community_members = []\<rparr>, CommunityCoordinationAgent example_community_env] ?s4"
    by (rule reachable_step)
  have ret: "filter (is_cycle_return ''CommunityCoordinationAgent'') (trace ?s4) =
       [ExecuteCycleReturned ''CommunityCoordinationAgent''
          (PDict [(''coordination_needs'', PList []), (''active_campaigns'', PRef 1),
              (''coordinated_actions'', PList []), (''engagement_metrics'', PDict []),
              (''timestamp'', PStr ''12:30'')])]"
    by (simp add: defs tick)
  have before: "map_of (read_shared_memory ?s3) ''CommunityCoordinationAgent'' =
       Some (envelope ''12:10''
          (PDict [(''coordination_needs'', PList []), (''active_campaigns'', PList []),
              (''coordinated_actions'', PList []), (''engagement_metrics'', PDict []),
              (''timestamp'', PStr ''12:30'')]))"
    by (simp add: defs)
  have same: "map_of (shared_memory ?s4) ''CommunityCoordinationAgent'' =
       map_of (shared_memory ?s3) ''CommunityCoordinationAgent''"
    by (simp add: defs tick)
  have after: "\<exists>campaign. py_get campaign ''id'' PNone = Inr (PStr ''campaign_I'') \<and>
        py_get campaign ''type'' PNone = Inr (PStr ''pollution_emergency'') \<and>
        map_of (read_shared_memory ?s4) ''CommunityCoordinationAgent'' =
          Some (envelope ''12:10''
            (PDict [(''coordination_needs'', PList []), (''active_campaigns'', PList [campaign]),
              (''coordinated_actions'', PList []), (''engagement_metrics'', PDict []),
              (''timestamp'', PStr ''12:30'')]))"
    by (simp add: defs tick)
  from r4 ret before same after show ?thesis by (intro conjI)
qed

subsection \<open>The alert handler of the predictive agent\<close>




subsection \<open>The rule of the coordination tick\<close>

lemma call_extension_effect:
  "call_extension sel mn ev k arg s =
     (case map_of (agents s) k of
        None \<Rightarrow> (None, s)
      | Some a \<Rightarrow>
          (case sel (methods a) of
             None \<Rightarrow> (Some (Exc AttributeError (''object has no attribute '' @ quoted mn)), s)
           | Some h \<Rightarrow>
               ((case fst (h arg (state a)) of Inl e \<Rightarrow> Some e | Inr v \<Rightarrow> None),
                emit [ev k] (set_agent k (a\<lparr>state := snd (h arg (state a))\<rparr>) s))))"
  by (simp add: call_extension_def split: option.splits prod.splits)

lemma published_data:
  assumes "pollution_alert_published s"
  obtains flag where
    "py_get (case map_of (read_shared_memory s) ''EnvironmentalMonitoringAgent'' of
               None \<Rightarrow> PDict [] | Some entry \<Rightarrow> entry) ''data'' (PDict []) =
       Inr (published_monitoring_data s)"
    "py_get (published_monitoring_data s) ''pollution_alert'' PNone = Inr flag" "truthy flag"
  using assms
  by (auto simp: pollution_alert_published_def published_monitoring_data_def
        split: option.splits sum.splits)

lemma check_cross_agent_actions_rule:
  assumes "pollution_alert_published s"
  shows "check_cross_agent_actions s =
        (case call_extension handle_pollution_alert ''handle_pollution_alert''
                PollutionAlertCalled ''PredictiveActionAgent'' (published_monitoring_data s) s of
           (Some e, s1) \<Rightarrow> (Some e, s1)
         | (None, s1) \<Rightarrow>
             call_extension coordinate_pollution_response ''coordinate_pollution_response''
               PollutionResponseCalled ''CommunityCoordinationAgent'' (published_monitoring_data s) s1)"
proof -
  obtain flag where
    d: "py_get (case map_of (read_shared_memory s) ''EnvironmentalMonitoringAgent'' of
               None \<Rightarrow> PDict [] | Some entry \<Rightarrow> entry) ''data'' (PDict []) =
       Inr (published_monitoring_data s)"
    and f: "py_get (published_monitoring_data s) ''pollution_alert'' PNone = Inr flag" "truthy flag"
    using assms by (rule published_data)
  show ?thesis
    unfolding check_cross_agent_actions_def d by (simp add: f)
qed






lemma rule_result:
  assumes "pollution_alert_published s"
  shows "fst (check_cross_agent_actions s) = None \<longleftrightarrow>
           alert_call_returns s \<and>
           (case map_of (agents s) ''CommunityCoordinationAgent'' of
              None \<Rightarrow> True
            | Some c \<Rightarrow>
                (case coordinate_pollution_response (methods c) of
                   None \<Rightarrow> False
                 | Some g \<Rightarrow>
                     (case fst (g (published_monitoring_data s) (state c)) of
                        Inl e \<Rightarrow> False | Inr v \<Rightarrow> True)))"
  unfolding check_cross_agent_actions_rule [OF assms] call_extension_effect
  by (auto simp: alert_call_returns_def update_conv' split: option.splits sum.splits)







subsection \<open>Messages to the predictive agent\<close>

text \<open>A message of a type that the predictive agent does not know gets the default answer.\<close>

lemma predictive_unknown_message_type:
  assumes "map_of kvs ''type'' = Some (PStr t)"
    and "t \<noteq> ''get_predictions''" and "t \<noteq> ''request_prediction''" and "t \<noteq> ''update_threshold''"
  shows "predictive_process_message env (PDict kvs) st =
           (Inr (PDict [(''status'', PStr ''unknown_message_type'')]), st)"
  using assms by (simp add: predictive_process_message_def)

text \<open>A threshold that is a number is stored when it lies in the unit interval.\<close>

lemma predictive_update_threshold_number:
  assumes "map_of kvs ''type'' = Some (PStr ''update_threshold'')"
    and "map_of kvs ''threshold'' = Some v" and "num_value v = Some x"
  shows "predictive_process_message env (PDict kvs) st =
           (if 0 \<le> x \<and> x \<le> 1
            then (Inr (PDict [(''status'', PStr ''success''), (''new_threshold'', v)]),
                  st\<lparr>attrs := (attrs st)\<lparr>prediction_threshold := v\<rparr>\<rparr>)
            else (Inr (PDict [(''status'', PStr ''unknown_message_type'')]), st))"
  using assms by (simp add: predictive_process_message_def bind_exn_def compare_num_def)

text \<open>
  Claim C6, where the code departs from it.  The message
  \<^verbatim>\<open>{"type": "update_threshold"}\<close> carries no threshold, so the handler of the
  predictive agent compares \<^verbatim>\<open>0 <= None\<close>: a \<^verbatim>\<open>TypeError\<close> leaves
  \<^verbatim>\<open>_process_message\<close> and \<^verbatim>\<open>handle_message\<close>, reaches the caller of
  \<^verbatim>\<open>send_message_to_agent\<close>, and is the agent's entry in the result of
  \<^verbatim>\<open>broadcast_message\<close> as an error string.  This holds whatever the clock reads,
  whatever the unmodelled parts of the agent do and whatever threshold it was built
  with.
\<close>

theorem update_threshold_without_threshold_raises:
  "fst (handle_message (PDict [(''type'', PStr ''update_threshold'')])
          (PredictiveActionAgent env threshold)) =
     Inl (Exc TypeError
            (quoted ''<='' @ '' not supported between instances of ''
               @ quoted ''int'' @ '' and '' @ quoted ''NoneType''))
   \<and> fst (send_message_to_agent ''PredictiveActionAgent''
            (PDict [(''type'', PStr ''update_threshold'')])
            (AgentOrchestrator [PredictiveActionAgent env threshold])) =
     Inl (Exc TypeError
            (quoted ''<='' @ '' not supported between instances of ''
               @ quoted ''int'' @ '' and '' @ quoted ''NoneType''))
   \<and> fst (broadcast_message (PDict [(''type'', PStr ''update_threshold'')])
            (AgentOrchestrator [PredictiveActionAgent env threshold])) =
     [(''PredictiveActionAgent'',
       PStr (''Error: '' @ quoted ''<='' @ '' not supported between instances of ''
               @ quoted ''int'' @ '' and '' @ quoted ''NoneType''))]"
proof -
  have p: "predictive_process_message env (PDict [(''type'', PStr ''update_threshold'')]) st =
     (Inl (Exc TypeError
        (quoted ''<='' @ '' not supported between instances of ''
           @ quoted ''int'' @ '' and '' @ quoted ''NoneType'')), st)" for st
    by (simp add: predictive_process_message_def bind_exn_def compare_num_def)
  have h: "fst (handle_message (PDict [(''type'', PStr ''update_threshold'')])
          (PredictiveActionAgent env threshold)) =
     Inl (Exc TypeError
            (quoted ''<='' @ '' not supported between instances of ''
               @ quoted ''int'' @ '' and '' @ quoted ''NoneType''))"
    by (simp add: handle_message_def PredictiveActionAgent_def PredictiveActionAgent_class_def
          BaseAgent_def p)
  have a: "agents (AgentOrchestrator [PredictiveActionAgent env threshold]) =
      [(''PredictiveActionAgent'', PredictiveActionAgent env threshold)]"
    by (simp add: AgentOrchestrator_def PredictiveActionAgent_def BaseAgent_def)
  have s: "fst (send_message_to_agent ''PredictiveActionAgent''
            (PDict [(''type'', PStr ''update_threshold'')])
            (AgentOrchestrator [PredictiveActionAgent env threshold])) =
     Inl (Exc TypeError
            (quoted ''<='' @ '' not supported between instances of ''
               @ quoted ''int'' @ '' and '' @ quoted ''NoneType''))"
    using h by (auto simp: send_message_to_agent_def a split: prod.splits)
  have b: "fst (broadcast_message (PDict [(''type'', PStr ''update_threshold'')])
            (AgentOrchestrator [PredictiveActionAgent env threshold])) =
     [(''PredictiveActionAgent'',
       PStr (''Error: '' @ quoted ''<='' @ '' not supported between instances of ''
               @ quoted ''int'' @ '' and '' @ quoted ''NoneType''))]"
    using h by (auto simp: broadcast_message_def a split: prod.splits)
  from h s b show ?thesis by (intro conjI)
qed

end
